theory Spec2Isabelle
  imports Main "HOL-Library.Sublist" "HOL-Library.AList"
begin

section \<open>Strings of the icon builder\<close>

text \<open>
  The icon builder is a pair of TypeScript programs that list the SVG files of a GitHub
  directory, fetch each file, and write one React component per icon. A JavaScript
  string is modelled as a \<^typ>\<open>string\<close>: a list of code units, restricted to the
  code units below 256. The regular expressions of the source are translated into
  recursive functions that follow the backtracking order of the matcher.
\<close>

subsection \<open>Character classes and primitive string operations\<close>

definition code :: "char \<Rightarrow> nat" where
  "code c = of_char c"

text \<open>The class \<^verbatim>\<open>\w\<close> of a regular expression: \<^verbatim>\<open>[A-Za-z0-9_]\<close>.\<close>

definition isWordChar :: "char \<Rightarrow> bool" where
  "isWordChar c \<longleftrightarrow>
     (48 \<le> code c \<and> code c \<le> 57) \<or> (65 \<le> code c \<and> code c \<le> 90) \<or>
     (97 \<le> code c \<and> code c \<le> 122) \<or> code c = 95"

text \<open>
  The class \<^verbatim>\<open>\s\<close>, which is also what \<^verbatim>\<open>trim\<close> strips: tab, line feed,
  vertical tab, form feed, carriage return, space and the no-break space (the other
  members of the class lie above code unit 255).
\<close>

definition isSpace :: "char \<Rightarrow> bool" where
  "isSpace c \<longleftrightarrow> (9 \<le> code c \<and> code c \<le> 13) \<or> code c = 32 \<or> code c = 160"

text \<open>
  \<^verbatim>\<open>toUpperCase\<close> on the characters it is applied to in this program, the hyphen
  and the members of \<^verbatim>\<open>\w\<close>: the letters a to z move to A to Z, all else stays.
\<close>

definition toUpperChar :: "char \<Rightarrow> char" where
  "toUpperChar c = (if 97 \<le> code c \<and> code c \<le> 122 then char_of (code c - 32) else c)"

definition toUpperCase :: "string \<Rightarrow> string" where
  "toUpperCase s = map toUpperChar s"

text \<open>\<^verbatim>\<open>s.startsWith(p)\<close> and \<^verbatim>\<open>s.endsWith(p)\<close>.\<close>

definition startsWith :: "string \<Rightarrow> string \<Rightarrow> bool" where
  "startsWith s p \<longleftrightarrow> take (length p) s = p"

definition endsWith :: "string \<Rightarrow> string \<Rightarrow> bool" where
  "endsWith s p \<longleftrightarrow> length p \<le> length s \<and> drop (length s - length p) s = p"

text \<open>
  \<^verbatim>\<open>s.lastIndexOf(c)\<close> for a one-character search string: the greatest index that
  holds \<^verbatim>\<open>c\<close>, or \<open>-1\<close>.
\<close>

fun lastIndexOfFrom :: "char \<Rightarrow> string \<Rightarrow> int \<Rightarrow> int \<Rightarrow> int" where
  "lastIndexOfFrom c [] i found = found"
| "lastIndexOfFrom c (x # xs) i found =
     lastIndexOfFrom c xs (i + 1) (if x = c then i else found)"

definition lastIndexOf :: "string \<Rightarrow> char \<Rightarrow> int" where
  "lastIndexOf s c = lastIndexOfFrom c s 0 (- 1)"

text \<open>
  \<^verbatim>\<open>s.substring(a, b)\<close>: both indices are clamped to the string and swapped when
  they come in the wrong order.
\<close>

definition substring :: "string \<Rightarrow> int \<Rightarrow> int \<Rightarrow> string" where
  "substring s a b =
     (let n = int (length s);
          a' = max 0 (min a n);
          b' = max 0 (min b n);
          lo = min a' b';
          hi = max a' b'
      in take (nat (hi - lo)) (drop (nat lo) s))"

text \<open>
  \<^verbatim>\<open>s.replace(pat, rep)\<close> with a string pattern: the first occurrence of
  \<^verbatim>\<open>pat\<close> only, scanning from the left.
\<close>

fun replaceFirst :: "string \<Rightarrow> string \<Rightarrow> string \<Rightarrow> string" where
  "replaceFirst pat rep [] = (if pat = [] then rep else [])"
| "replaceFirst pat rep (c # cs) =
     (if startsWith (c # cs) pat then rep @ drop (length pat) (c # cs)
      else c # replaceFirst pat rep cs)"

text \<open>\<^verbatim>\<open>s.trim()\<close>.\<close>

definition trim :: "string \<Rightarrow> string" where
  "trim s = rev (dropWhile isSpace (rev (dropWhile isSpace s)))"

subsection \<open>Name derivation\<close>

text \<open>
  \<^verbatim>\<open>clearAndUpper(text) = text.replace(/-/, '').toUpperCase()\<close>: the first hyphen is
  removed, the rest is upper-cased.
\<close>

definition clearAndUpper :: "string \<Rightarrow> string" where
  "clearAndUpper text = toUpperCase (remove1 (CHR ''-'') text)"

text \<open>
  \<^verbatim>\<open>str.replace(/(^\w|-\w)/g, clearAndUpper)\<close>. The scan goes from left to right. At
  index 0 (\<open>atStart\<close>) the first alternative \<^verbatim>\<open>^\w\<close> is tried before \<^verbatim>\<open>-\w\<close>;
  at every later index only \<^verbatim>\<open>-\w\<close> can match. A match is replaced by the result
  of the callback and the scan resumes after it; where nothing matches, the character
  is copied.
\<close>

fun replaceWordStarts :: "bool \<Rightarrow> string \<Rightarrow> string" where
  "replaceWordStarts atStart [] = []"
| "replaceWordStarts atStart [c] =
     (if atStart \<and> isWordChar c then clearAndUpper [c] else [c])"
| "replaceWordStarts atStart (c # d # ds) =
     (if atStart \<and> isWordChar c then clearAndUpper [c] @ replaceWordStarts False (d # ds)
      else if c = CHR ''-'' \<and> isWordChar d then clearAndUpper [c, d] @ replaceWordStarts False ds
      else c # replaceWordStarts False (d # ds))"

text \<open>\<^verbatim>\<open>s.replace(/-/g, '')\<close>: every hyphen is removed.\<close>

definition removeHyphens :: "string \<Rightarrow> string" where
  "removeHyphens s = filter (\<lambda>c. c \<noteq> CHR ''-'') s"

definition toPascalCase :: "string \<Rightarrow> string" where
  "toPascalCase str = removeHyphens (replaceWordStarts True str) @ ''Icon''"

text \<open>
  \<^verbatim>\<open>getFileNameFromUrl\<close>: the text after the last slash (the whole URL when it has
  none, since \<^verbatim>\<open>lastIndexOf\<close> is then \<open>-1\<close>), with the first \<^verbatim>\<open>.svg\<close> removed.
\<close>

definition getFileNameFromUrl :: "string \<Rightarrow> string" where
  "getFileNameFromUrl url =
     (let fileName = substring url (lastIndexOf url (CHR ''/'') + 1) (int (length url))
      in replaceFirst ''.svg'' [] fileName)"

section \<open>The path-only transformer\<close>

text \<open>
  The outline program extracts the path data with
  \<^verbatim>\<open>svgData.match(/<path\s[^>]*d="([^"]*)"/)\<close> and uses capture group 1. The
  pattern is translated piece by piece, from the right.

  \<^verbatim>\<open>([^"]*)"\<close>: the group takes every character up to the next double quote, which
  must exist. Giving characters back cannot help, since none of them is a double quote.
\<close>

fun matchQuoted :: "string \<Rightarrow> string option" where
  "matchQuoted [] = None"
| "matchQuoted (c # cs) =
     (if c = CHR 0x22 then Some [] else map_option ((#) c) (matchQuoted cs))"

text \<open>\<^verbatim>\<open>d="([^"]*)"\<close> at the front of the text.\<close>

definition matchD :: "string \<Rightarrow> string option" where
  \<open>matchD s = (if startsWith s ''d="'' then matchQuoted (drop 3 s) else None)\<close>

text \<open>
  \<^verbatim>\<open>[^>]*d="([^"]*)"\<close>: the star is greedy, so the matcher first takes one more
  character other than \<^verbatim>\<open>>\<close> and tries the rest of the pattern from there; only
  when that fails does it try \<^verbatim>\<open>d="\<close> at the current position.
\<close>

fun matchAttrs :: "string \<Rightarrow> string option" where
  "matchAttrs [] = matchD []"
| "matchAttrs (c # cs) =
     (if c \<noteq> CHR ''>'' then
        (case matchAttrs cs of Some r \<Rightarrow> Some r | None \<Rightarrow> matchD (c # cs))
      else matchD (c # cs))"

text \<open>The whole pattern, anchored at the front of the text.\<close>

definition matchHere :: "string \<Rightarrow> string option" where
  "matchHere s =
     (if startsWith s ''<path'' then
        (case drop 5 s of
           [] \<Rightarrow> None
         | c # cs \<Rightarrow> if isSpace c then matchAttrs cs else None)
      else None)"

text \<open>
  \<^verbatim>\<open>match\<close> without the global flag: the leftmost index at which the pattern
  matches wins. The result is capture group 1 of that match, \<open>None\<close> for \<^verbatim>\<open>null\<close>.
\<close>

fun pathMatch :: "string \<Rightarrow> string option" where
  "pathMatch [] = matchHere []"
| "pathMatch (c # cs) =
     (case matchHere (c # cs) of Some r \<Rightarrow> Some r | None \<Rightarrow> pathMatch cs)"

text \<open>The template literal of the outline program.\<close>

definition reactComponent :: "string \<Rightarrow> string \<Rightarrow> string \<Rightarrow> string" where
  \<open>reactComponent iconName ariaLabel pathData =
     ''\<newline>'' @
     ''import { IconProps } from './types';\<newline>'' @
     ''\<newline>'' @
     ''export default function '' @ iconName @ ''(props: IconProps) {\<newline>'' @
     ''  return (\<newline>'' @
     ''    <svg\<newline>'' @
     ''      xmlns="http://www.w3.org/2000/svg"\<newline>'' @
     ''      fill="none"\<newline>'' @
     ''      viewBox="0 0 24 24"\<newline>'' @
     ''      strokeWidth={1.5}\<newline>'' @
     ''      stroke="currentColor"\<newline>'' @
     ''      className="arctic-icon-medium"\<newline>'' @
     ''      aria-label="'' @ ariaLabel @ ''"\<newline>'' @
     ''      {...props}\<newline>'' @
     ''    >\<newline>'' @
     ''      <path\<newline>'' @
     ''        strokeLinecap="round"\<newline>'' @
     ''        strokeLinejoin="round"\<newline>'' @
     ''        d="'' @ pathData @ ''"\<newline>'' @
     ''      />\<newline>'' @
     ''    </svg>\<newline>'' @
     ''  );\<newline>'' @
     ''}''\<close>

section \<open>The environment and the state of a run\<close>

text \<open>
  What a request, a file-system call or a library call can throw. The network is a
  function from the URL to the outcome of the request: \<open>Inl\<close> when
  \<^verbatim>\<open>axios.get\<close> rejects (no response, or a status outside 2xx), \<open>Inr\<close> with
  \<^verbatim>\<open>response.data\<close> otherwise, which is text for a download URL and the
  array of directory entries for the listing URL, as the source types them. The file
  system refuses \<^verbatim>\<open>mkdirSync\<close> and \<^verbatim>\<open>writeFileSync\<close> on the paths the
  environment names. The libraries of the
  solid program are not part of the repository and are parameters of the environment:
  \<open>svgo_optimize\<close> is \<^verbatim>\<open>optimize(svgData, config).data\<close>, \<open>cheerio_svg_html\<close>
  is \<^verbatim>\<open>cheerio.load(data, { xmlMode: true })('svg').html()\<close>, which is
  \<^verbatim>\<open>null\<close> when the document has no \<^verbatim>\<open>svg\<close> element, and
  \<open>prettier_format\<close> is \<^verbatim>\<open>prettier.format(text, { parser: 'babel-ts' })\<close>
  returning the formatted text.
\<close>

datatype error = TransportError | HttpStatus nat | FsError | LibraryError

record file_entry =
  name :: string
  download_url :: string

record env =
  get_text :: "string \<Rightarrow> error + string"
  get_listing :: "string \<Rightarrow> error + file_entry list"
  cwd :: string
  mkdir_fails :: "string \<Rightarrow> bool"
  write_fails :: "string \<Rightarrow> bool"
  svgo_optimize :: "string \<Rightarrow> error + string"
  cheerio_svg_html :: "string \<Rightarrow> error + string option"
  prettier_format :: "string \<Rightarrow> error + string"

text \<open>Console output, one constructor per message of the source.\<close>

datatype console_line =
    LogProcessing nat
  | LogFetching string
  | ErrorNoPath string
  | LogSaved string
  | ErrorProcessing string error
  | LogTotalFound nat
  | ErrorListing error

text \<open>
  The state a run changes: the directories and files on disk (a later write to the same
  path replaces the text) and the console, oldest line first.
\<close>

record state =
  dirs :: "string list"
  files :: "(string \<times> string) list"
  console :: "console_line list"

definition consoleLog :: "console_line \<Rightarrow> state \<Rightarrow> state" where
  "consoleLog l s = s\<lparr>console := console s @ [l]\<rparr>"

text \<open>
  \<^verbatim>\<open>path.join\<close> and \<^verbatim>\<open>path.dirname\<close> on POSIX, for the paths of this program:
  the working directory is a normalised absolute path other than the root and the
  other segments hold no slash, so that the normalisation \<^verbatim>\<open>join\<close> ends with
  changes nothing.
\<close>

fun join :: "string list \<Rightarrow> string" where
  "join [] = []"
| "join [p] = p"
| "join (p # q # ps) = p @ ''/'' @ join (q # ps)"

definition dirname :: "string \<Rightarrow> string" where
  "dirname p =
     (let i = lastIndexOf p (CHR ''/'')
      in if i < 0 then ''.'' else if i = 0 then ''/'' else take (nat i) p)"

text \<open>
  The calls that can throw return \<open>Inl\<close> with the error and the state reached so far.
  \<^verbatim>\<open>existsSync\<close> reads the directories of the state, and \<^verbatim>\<open>mkdirSync\<close> adds
  the directory it is asked for (the parents that \<^verbatim>\<open>recursive\<close> creates with it
  are not listed).
\<close>

definition ensureDirectoryExistence ::
    "env \<Rightarrow> string \<Rightarrow> state \<Rightarrow> (error \<times> state) + (bool \<times> state)" where
  "ensureDirectoryExistence e filePath s =
     (let dir = dirname filePath
      in if dir \<in> set (dirs s) then Inr (True, s)
         else if mkdir_fails e dir then Inl (FsError, s)
         else Inr (False, s\<lparr>dirs := dir # dirs s\<rparr>))"

definition writeFileSync :: "env \<Rightarrow> string \<Rightarrow> string \<Rightarrow> state \<Rightarrow> (error \<times> state) + state" where
  "writeFileSync e p text s =
     (if write_fails e p then Inl (FsError, s)
      else Inr (s\<lparr>files := AList.update p text (files s)\<rparr>))"

definition outputPath :: "env \<Rightarrow> string \<Rightarrow> string" where
  "outputPath e iconName = join [cwd e, ''src'', ''assets'', ''icons'', iconName @ ''.tsx'']"

section \<open>The outline pipeline\<close>

text \<open>
  The body of the \<^verbatim>\<open>try\<close> block of \<^verbatim>\<open>convertSvgToReact\<close>, for one URL. \<open>Inl\<close> is
  a throw, caught by the \<^verbatim>\<open>catch\<close> of the same iteration; the \<^verbatim>\<open>continue\<close> of
  the missing path is an ordinary return.
\<close>

definition tryBody :: "env \<Rightarrow> string \<Rightarrow> state \<Rightarrow> (error \<times> state) + state" where
  "tryBody e url s =
     (let s1 = consoleLog (LogFetching url) s;
          fileName = getFileNameFromUrl url;
          iconName = toPascalCase fileName;
          ariaLabel = fileName
      in case get_text e url of
           Inl err \<Rightarrow> Inl (err, s1)
         | Inr svgData \<Rightarrow>
             (case pathMatch svgData of
                None \<Rightarrow> Inr (consoleLog (ErrorNoPath fileName) s1)
              | Some pathData \<Rightarrow>
                  (case ensureDirectoryExistence e (outputPath e iconName) s1 of
                     Inl (err, s2) \<Rightarrow> Inl (err, s2)
                   | Inr (_, s2) \<Rightarrow>
                       (case writeFileSync e (outputPath e iconName)
                               (trim (reactComponent iconName ariaLabel pathData)) s2 of
                          Inl (err, s3) \<Rightarrow> Inl (err, s3)
                        | Inr s3 \<Rightarrow> Inr (consoleLog (LogSaved iconName) s3)))))"

definition loopBody :: "env \<Rightarrow> string \<Rightarrow> state \<Rightarrow> state" where
  "loopBody e url s =
     (case tryBody e url s of
        Inl (err, s') \<Rightarrow> consoleLog (ErrorProcessing url err) s'
      | Inr s' \<Rightarrow> s')"

text \<open>
  The \<^verbatim>\<open>for (const url of urls)\<close> loop, which both programs have: the
  iterations run in order, each on the state the one before left.
\<close>

fun forOf :: "(string \<Rightarrow> state \<Rightarrow> state) \<Rightarrow> string list \<Rightarrow> state \<Rightarrow> state" where
  "forOf body [] s = s"
| "forOf body (url # urls) s = forOf body urls (body url s)"

definition convertSvgToReact :: "env \<Rightarrow> string list \<Rightarrow> state \<Rightarrow> state" where
  "convertSvgToReact e urls s =
     forOf (loopBody e) urls (consoleLog (LogProcessing (length urls)) s)"

section \<open>The source lister and the outline program\<close>

text \<open>The \<^verbatim>\<open>forEach\<close> of the lister, pushing onto \<^verbatim>\<open>svgUrls\<close>.\<close>

fun forEachPush :: "file_entry list \<Rightarrow> string list \<Rightarrow> string list" where
  "forEachPush [] svgUrls = svgUrls"
| "forEachPush (file # rest) svgUrls =
     forEachPush rest (if endsWith (name file) ''.svg'' then svgUrls @ [download_url file]
                       else svgUrls)"

definition githubApiUrl :: "string \<Rightarrow> string \<Rightarrow> string" where
  "githubApiUrl repo path = ''https://api.github.com/repos/'' @ repo @ ''/contents/'' @ path"

text \<open>The \<^verbatim>\<open>try\<close> block of \<^verbatim>\<open>fetchGithubSvgUrls\<close>, then the function with its \<^verbatim>\<open>catch\<close>.\<close>

definition fetchTry :: "env \<Rightarrow> string \<Rightarrow> string \<Rightarrow> state \<Rightarrow> (error \<times> state) + (string list \<times> state)" where
  "fetchTry e repo path s =
     (case get_listing e (githubApiUrl repo path) of
        Inl err \<Rightarrow> Inl (err, s)
      | Inr listed \<Rightarrow>
          (let svgUrls = forEachPush listed []
           in Inr (svgUrls, consoleLog (LogTotalFound (length svgUrls)) s)))"

definition fetchGithubSvgUrls :: "env \<Rightarrow> string \<Rightarrow> string \<Rightarrow> state \<Rightarrow> string list \<times> state" where
  "fetchGithubSvgUrls e repo path s =
     (case fetchTry e repo path s of
        Inl (err, s') \<Rightarrow> ([], consoleLog (ErrorListing err) s')
      | Inr r \<Rightarrow> r)"

definition processGithubSvgs :: "env \<Rightarrow> state \<Rightarrow> state" where
  "processGithubSvgs e s =
     (case fetchGithubSvgUrls e ''tailwindlabs/heroicons'' ''src/24/outline'' s of
        (svgUrls, s') \<Rightarrow> convertSvgToReact e svgUrls s')"

section \<open>The solid pipeline\<close>

text \<open>
  The solid program has the same helpers, the same lister and the same loop. Its
  \<^verbatim>\<open>try\<close> block optimises the markup, takes the inner markup of the \<^verbatim>\<open>svg\<close>
  element, formats the component and writes it under \<^verbatim>\<open>src/icons\<close>. A
  \<^verbatim>\<open>null\<close> in a template literal reads \<^verbatim>\<open>null\<close>.
\<close>

definition reactComponentSolid :: "string \<Rightarrow> string \<Rightarrow> string option \<Rightarrow> string" where
  \<open>reactComponentSolid iconName ariaLabel svgElements =
     ''\<newline>'' @
     ''import { IconProps } from './types';\<newline>'' @
     ''\<newline>'' @
     ''export default function '' @ iconName @ ''(props: IconProps) {\<newline>'' @
     ''  return (\<newline>'' @
     ''    <svg\<newline>'' @
     ''      xmlns="http://www.w3.org/2000/svg"\<newline>'' @
     ''      fill="currentColor"\<newline>'' @
     ''      viewBox="0 0 24 24"\<newline>'' @
     ''      className="arctic-icon-medium solid"\<newline>'' @
     ''      aria-label="'' @ ariaLabel @ ''"\<newline>'' @
     ''      {...props}\<newline>'' @
     ''    >\<newline>'' @
     ''      '' @ (case svgElements of None \<Rightarrow> ''null'' | Some inner \<Rightarrow> inner) @ ''\<newline>'' @
     ''    </svg>\<newline>'' @
     ''  );\<newline>'' @
     ''}''\<close>

definition outputPathSolid :: "env \<Rightarrow> string \<Rightarrow> string" where
  "outputPathSolid e iconName = join [cwd e, ''src'', ''icons'', iconName @ ''.tsx'']"

definition tryBodySolid :: "env \<Rightarrow> string \<Rightarrow> state \<Rightarrow> (error \<times> state) + state" where
  "tryBodySolid e url s =
     (let s1 = consoleLog (LogFetching url) s;
          fileName = getFileNameFromUrl url;
          iconName = toPascalCase fileName;
          ariaLabel = fileName
      in case get_text e url of
           Inl err \<Rightarrow> Inl (err, s1)
         | Inr svgData \<Rightarrow>
             (case svgo_optimize e svgData of
                Inl err \<Rightarrow> Inl (err, s1)
              | Inr optimizedSvg \<Rightarrow>
                  (case cheerio_svg_html e optimizedSvg of
                     Inl err \<Rightarrow> Inl (err, s1)
                   | Inr svgElements \<Rightarrow>
                       (case prettier_format e (reactComponentSolid iconName ariaLabel svgElements) of
                          Inl err \<Rightarrow> Inl (err, s1)
                        | Inr formattedCode \<Rightarrow>
                            (case ensureDirectoryExistence e (outputPathSolid e iconName) s1 of
                               Inl (err, s2) \<Rightarrow> Inl (err, s2)
                             | Inr (_, s2) \<Rightarrow>
                                 (case writeFileSync e (outputPathSolid e iconName) formattedCode s2 of
                                    Inl (err, s3) \<Rightarrow> Inl (err, s3)
                                  | Inr s3 \<Rightarrow> Inr (consoleLog (LogSaved iconName) s3)))))))"

definition loopBodySolid :: "env \<Rightarrow> string \<Rightarrow> state \<Rightarrow> state" where
  "loopBodySolid e url s =
     (case tryBodySolid e url s of
        Inl (err, s') \<Rightarrow> consoleLog (ErrorProcessing url err) s'
      | Inr s' \<Rightarrow> s')"

definition convertSvgToReactSolid :: "env \<Rightarrow> string list \<Rightarrow> state \<Rightarrow> state" where
  "convertSvgToReactSolid e urls s =
     forOf (loopBodySolid e) urls (consoleLog (LogProcessing (length urls)) s)"

definition processGithubSvgsSolid :: "env \<Rightarrow> state \<Rightarrow> state" where
  "processGithubSvgsSolid e s =
     (case fetchGithubSvgUrls e ''tailwindlabs/heroicons'' ''src/24/solid'' s of
        (svgUrls, s') \<Rightarrow> convertSvgToReactSolid e svgUrls s')"

section \<open>Notions the properties are stated with\<close>

text \<open>
  A file-name stem in hyphenated lower case: words of lower-case letters and digits,
  joined by single hyphens. \<open>capitalize\<close> puts the first character of a word in
  upper case.
\<close>

fun hyphenate :: "string list \<Rightarrow> string" where
  "hyphenate [] = []"
| "hyphenate [w] = w"
| "hyphenate (w # v # ws) = w @ ''-'' @ hyphenate (v # ws)"

definition capitalize :: "string \<Rightarrow> string" where
  "capitalize w = (case w of [] \<Rightarrow> [] | c # cs \<Rightarrow> toUpperChar c # cs)"

definition isStemChar :: "char \<Rightarrow> bool" where
  "isStemChar c \<longleftrightarrow> (97 \<le> code c \<and> code c \<le> 122) \<or> (48 \<le> code c \<and> code c \<le> 57)"

definition isStemWord :: "string \<Rightarrow> bool" where
  "isStemWord w \<longleftrightarrow> w \<noteq> [] \<and> list_all isStemChar w"

text \<open>A text that upper-casing its first character leaves alone.\<close>

definition upperStart :: "string \<Rightarrow> bool" where
  "upperStart r \<longleftrightarrow> (case r of [] \<Rightarrow> True | c # _ \<Rightarrow> toUpperChar c = c)"

text \<open>
  The two halves of the outline template, before and after the \<^verbatim>\<open>d\<close> attribute.
\<close>

definition componentHead :: "string \<Rightarrow> string \<Rightarrow> string" where
  \<open>componentHead iconName ariaLabel =
     ''\<newline>'' @
     ''import { IconProps } from './types';\<newline>'' @
     ''\<newline>'' @
     ''export default function '' @ iconName @ ''(props: IconProps) {\<newline>'' @
     ''  return (\<newline>'' @
     ''    <svg\<newline>'' @
     ''      xmlns="http://www.w3.org/2000/svg"\<newline>'' @
     ''      fill="none"\<newline>'' @
     ''      viewBox="0 0 24 24"\<newline>'' @
     ''      strokeWidth={1.5}\<newline>'' @
     ''      stroke="currentColor"\<newline>'' @
     ''      className="arctic-icon-medium"\<newline>'' @
     ''      aria-label="'' @ ariaLabel @ ''"\<newline>'' @
     ''      {...props}\<newline>'' @
     ''    >\<newline>'' @
     ''      <path\<newline>'' @
     ''        strokeLinecap="round"\<newline>'' @
     ''        strokeLinejoin="round"\<newline>'' @
     ''        ''\<close>

definition componentFoot :: string where
  \<open>componentFoot =
     ''\<newline>'' @
     ''      />\<newline>'' @
     ''    </svg>\<newline>'' @
     ''  );\<newline>'' @
     ''}''\<close>

text \<open>
  The name and the output path of the icon a URL stands for, in each program.
\<close>

definition iconNameOf :: "string \<Rightarrow> string" where
  "iconNameOf url = toPascalCase (getFileNameFromUrl url)"

definition outputPathOf :: "env \<Rightarrow> string \<Rightarrow> string" where
  "outputPathOf e url = outputPath e (iconNameOf url)"

definition outputPathSolidOf :: "env \<Rightarrow> string \<Rightarrow> string" where
  "outputPathSolidOf e url = outputPathSolid e (iconNameOf url)"

text \<open>
  A URL for which nothing fails: the request answers, the transformer finds its
  content, and the file system accepts the directory and the file.
\<close>

definition itemSucceeds :: "env \<Rightarrow> string \<Rightarrow> bool" where
  "itemSucceeds e url =
     (case get_text e url of
        Inl err \<Rightarrow> False
      | Inr svgData \<Rightarrow>
          pathMatch svgData \<noteq> None \<and>
          \<not> mkdir_fails e (dirname (outputPathOf e url)) \<and>
          \<not> write_fails e (outputPathOf e url))"

definition itemSucceedsSolid :: "env \<Rightarrow> string \<Rightarrow> bool" where
  "itemSucceedsSolid e url =
     (case get_text e url of
        Inl err \<Rightarrow> False
      | Inr svgData \<Rightarrow>
          (case svgo_optimize e svgData of
             Inl err \<Rightarrow> False
           | Inr optimizedSvg \<Rightarrow>
               (case cheerio_svg_html e optimizedSvg of
                  Inl err \<Rightarrow> False
                | Inr svgElements \<Rightarrow>
                    (case prettier_format e
                            (reactComponentSolid (iconNameOf url) (getFileNameFromUrl url) svgElements) of
                       Inl err \<Rightarrow> False
                     | Inr formattedCode \<Rightarrow>
                         \<not> mkdir_fails e (dirname (outputPathSolidOf e url)) \<and>
                         \<not> write_fails e (outputPathSolidOf e url)))))"

text \<open>A loop body that never removes a file.\<close>

definition keepsFiles :: "(string \<Rightarrow> state \<Rightarrow> state) \<Rightarrow> bool" where
  "keepsFiles body \<longleftrightarrow> (\<forall>url s. fst ` set (files s) \<subseteq> fst ` set (files (body url s)))"

subsection \<open>Test environments\<close>

text \<open>
  A mocked environment: the listing request answers \<open>listing\<close>, a download URL
  answers its entry of \<open>bodies\<close> or 404, the working directory is \<open>/work\<close>, the
  file system accepts everything, and the libraries hand their input on.
\<close>

definition testEnv :: "error + file_entry list \<Rightarrow> (string \<times> string) list \<Rightarrow> env" where
  "testEnv listing bodies =
     \<lparr>get_text = (\<lambda>url. case map_of bodies url of
                              None \<Rightarrow> Inl (HttpStatus 404)
                            | Some body \<Rightarrow> Inr body),
      get_listing = (\<lambda>url. listing),
      cwd = ''/work'',
      mkdir_fails = (\<lambda>p. False),
      write_fails = (\<lambda>p. False),
      svgo_optimize = (\<lambda>svgData. Inr svgData),
      cheerio_svg_html = (\<lambda>data. Inr (Some data)),
      prettier_format = (\<lambda>text. Inr text)\<rparr>"

definition emptyState :: state where
  "emptyState = \<lparr>dirs = [], files = [], console = []\<rparr>"

definition listing3 :: "file_entry list" where
  "listing3 =
     [\<lparr>name = ''a.svg'', download_url = ''https://host/a.svg''\<rparr>,
      \<lparr>name = ''b.png'', download_url = ''https://host/b.png''\<rparr>,
      \<lparr>name = ''c.SVG'', download_url = ''https://host/c.SVG''\<rparr>]"

definition checkBody :: string where
  \<open>checkBody = ''<svg><path d="M1 1L2 2"/></svg>''\<close>

definition checkEnv :: env where
  "checkEnv =
     testEnv (Inr [\<lparr>name = ''check.svg'', download_url = ''https://host/outline/check.svg''\<rparr>])
       [(''https://host/outline/check.svg'', checkBody)]"

definition batchEnv :: env where
  \<open>batchEnv =
     testEnv (Inr [])
       [(''https://host/a.svg'', ''<svg><path d="M1 1"/></svg>''),
        (''https://host/c.svg'', ''<svg><path d="M3 3"/></svg>'')]\<close>

definition twoPathsEnv :: env where
  \<open>twoPathsEnv =
     testEnv (Inr [])
       [(''https://host/two.svg'', ''<svg><path stroke="red" d="M1 1"/><path d="M9 9"/></svg>''),
        (''https://host/id.svg'', ''<svg><path d="M1 1" id="p"/><path d="M9 9"/></svg>'')]\<close>

definition batchUrls :: "string list" where
  "batchUrls = [''https://host/a.svg'', ''https://host/b.svg'', ''https://host/c.svg'']"

section \<open>Properties of the string functions\<close>


lemma endsWith_suffix: "endsWith s p \<longleftrightarrow> suffix p s"
  unfolding endsWith_def suffix_def
  by (metis append_eq_conv_conj append_take_drop_id diff_add_inverse2 length_append length_drop le_add2)

lemma startsWith_prefix: "startsWith s p \<longleftrightarrow> prefix p s"
  unfolding startsWith_def prefix_def
  by (metis append_eq_conv_conj append_take_drop_id)

subsection \<open>Upper-casing\<close>

lemma code_hyphen: "code (CHR ''-'') = 45"
  by (simp add: code_def)

lemma isWordChar_not_hyphen: "isWordChar c \<Longrightarrow> c \<noteq> CHR ''-''"
  by (auto simp: isWordChar_def code_hyphen)

lemma code_toUpperChar:
  "code (toUpperChar c) = (if 97 \<le> code c \<and> code c \<le> 122 then code c - 32 else code c)"
  by (auto simp: toUpperChar_def code_def)

lemma toUpperChar_idem: "toUpperChar (toUpperChar c) = toUpperChar c"
proof -
  have "\<not> (97 \<le> code (toUpperChar c) \<and> code (toUpperChar c) \<le> 122)"
    by (auto simp: code_toUpperChar)
  then show ?thesis
    unfolding toUpperChar_def[of "toUpperChar c"] by auto
qed

lemma toUpperChar_not_hyphen: "c \<noteq> CHR ''-'' \<Longrightarrow> toUpperChar c \<noteq> CHR ''-''"
proof
  assume a: "c \<noteq> CHR ''-''" and b: "toUpperChar c = CHR ''-''"
  have "code (toUpperChar c) = 45" using b by (simp add: code_hyphen)
  then have "code c = 45"
    by (auto simp: code_toUpperChar split: if_splits)
  then have "c = CHR ''-''"
    unfolding code_def by (metis code_def code_hyphen of_char_eq_iff)
  with a show False by simp
qed

lemma toUpperChar_fix: "\<not> isWordChar c \<Longrightarrow> toUpperChar c = c"
  by (auto simp: toUpperChar_def isWordChar_def)

lemma clearAndUpper_single: "c \<noteq> CHR ''-'' \<Longrightarrow> clearAndUpper [c] = [toUpperChar c]"
  by (simp add: clearAndUpper_def toUpperCase_def)

lemma clearAndUpper_pair: "clearAndUpper [CHR ''-'', d] = [toUpperChar d]"
  by (simp add: clearAndUpper_def toUpperCase_def)

lemma rws_start_word:
  "isWordChar c \<Longrightarrow> replaceWordStarts True (c # cs) = toUpperChar c # replaceWordStarts False cs"
  by (cases cs) (simp_all add: clearAndUpper_single isWordChar_not_hyphen)

lemma rws_start_other:
  "\<not> isWordChar c \<Longrightarrow> replaceWordStarts True (c # cs) = replaceWordStarts False (c # cs)"
  by (cases cs) simp_all

lemma rws_copy:
  "c \<noteq> CHR ''-'' \<Longrightarrow> replaceWordStarts False (c # cs) = c # replaceWordStarts False cs"
  by (cases cs) simp_all

lemma rws_hyphen_word:
  "isWordChar d \<Longrightarrow>
     replaceWordStarts False (CHR ''-'' # d # ds) = toUpperChar d # replaceWordStarts False ds"
  by (simp add: clearAndUpper_pair)

lemma rws_hyphen_other:
  "\<not> isWordChar d \<Longrightarrow>
     replaceWordStarts False (CHR ''-'' # d # ds) = CHR ''-'' # replaceWordStarts False (d # ds)"
  by simp

lemma rws_no_hyphen: "CHR ''-'' \<notin> set cs \<Longrightarrow> replaceWordStarts False (cs @ rest) = cs @ replaceWordStarts False rest"
  by (induction cs) (auto simp: rws_copy simp del: replaceWordStarts.simps)


declare replaceWordStarts.simps [simp del]

subsection \<open>Hyphenated stems\<close>

lemma isStemChar_word: "isStemChar c \<Longrightarrow> isWordChar c"
  by (auto simp: isStemChar_def isWordChar_def)

lemma hyphenate_Cons: "hyphenate (w # ws) = w @ concat (map ((#) (CHR ''-'')) ws)"
  by (induction ws arbitrary: w) auto

lemma stemWord_no_hyphen: "isStemWord w \<Longrightarrow> CHR ''-'' \<notin> set w"
  by (auto simp: isStemWord_def list_all_iff dest: isStemChar_word isWordChar_not_hyphen)

lemma rws_word:
  assumes "isStemWord w"
  shows "replaceWordStarts False (CHR ''-'' # w @ rest) = capitalize w @ replaceWordStarts False rest"
proof -
  from assms obtain c cs where w: "w = c # cs" and c: "isWordChar c" and cs: "CHR ''-'' \<notin> set cs"
    using stemWord_no_hyphen[OF assms]
    by (cases w) (auto simp: isStemWord_def isStemChar_word)
  show ?thesis
    by (simp add: w rws_hyphen_word[OF c] rws_no_hyphen[OF cs] capitalize_def)
qed

lemma rws_first_word:
  assumes "isStemWord w"
  shows "replaceWordStarts True (w @ rest) = capitalize w @ replaceWordStarts False rest"
proof -
  from assms obtain c cs where w: "w = c # cs" and c: "isWordChar c" and cs: "CHR ''-'' \<notin> set cs"
    using stemWord_no_hyphen[OF assms]
    by (cases w) (auto simp: isStemWord_def isStemChar_word)
  show ?thesis
    by (simp add: w rws_start_word[OF c] rws_no_hyphen[OF cs] capitalize_def)
qed

lemma rws_more_words:
  "list_all isStemWord ws \<Longrightarrow>
     replaceWordStarts False (concat (map ((#) (CHR ''-'')) ws)) = concat (map capitalize ws)"
  by (induction ws) (simp_all add: rws_word replaceWordStarts.simps)

lemma rws_hyphenate:
  "list_all isStemWord ws \<Longrightarrow> replaceWordStarts True (hyphenate ws) = concat (map capitalize ws)"
proof (cases ws)
  case Nil
  then show ?thesis by (simp add: replaceWordStarts.simps)
next
  case (Cons w vs)
  assume "list_all isStemWord ws"
  with Cons have w: "isStemWord w" and vs: "list_all isStemWord vs" by simp_all
  show ?thesis
    by (simp add: Cons hyphenate_Cons rws_first_word[OF w] rws_more_words[OF vs])
qed

lemma capitalize_no_hyphen:
  assumes "isStemWord w"
  shows "CHR ''-'' \<notin> set (capitalize w)"
proof (cases w)
  case Nil
  then show ?thesis by (simp add: capitalize_def)
next
  case (Cons c cs)
  with stemWord_no_hyphen[OF assms] have "c \<noteq> CHR ''-''" and cs: "CHR ''-'' \<notin> set cs"
    by auto
  then have "toUpperChar c \<noteq> CHR ''-''"
    by (simp add: toUpperChar_not_hyphen)
  with cs show ?thesis
    by (auto simp: Cons capitalize_def)
qed

lemma removeHyphens_id: "CHR ''-'' \<notin> set s \<Longrightarrow> removeHyphens s = s"
  by (induction s) (auto simp: removeHyphens_def)

lemma removeHyphens_set: "CHR ''-'' \<notin> set (removeHyphens s)"
  by (simp add: removeHyphens_def)

lemma toPascalCase_no_hyphen: "CHR ''-'' \<notin> set (toPascalCase s)"
  by (simp add: toPascalCase_def removeHyphens_set)

text \<open>
  C2: for every stem made of lower-case words joined by hyphens, \<open>toPascalCase\<close>
  returns the words, each with its first letter in upper case, followed by the suffix
  \<open>Icon\<close> once; no hyphen is left in the result. The witness is the stem
  \<open>arrow-left\<close>, which becomes \<open>ArrowLeftIcon\<close>.
\<close>

theorem toPascalCase_hyphenated:
  assumes "list_all isStemWord ws"
  shows "toPascalCase (hyphenate ws) = concat (map capitalize ws) @ ''Icon'' \<and>
         CHR ''-'' \<notin> set (toPascalCase (hyphenate ws))"
proof -
  have "CHR ''-'' \<notin> set (concat (map capitalize ws))"
    using assms by (auto simp: list_all_iff dest: capitalize_no_hyphen)
  then show ?thesis
    by (simp add: toPascalCase_def rws_hyphenate[OF assms] removeHyphens_id)
qed

theorem toPascalCase_hyphenated_witness:
  "list_all isStemWord [''arrow'', ''left''] \<and>
   hyphenate [''arrow'', ''left''] = ''arrow-left'' \<and>
   toPascalCase ''arrow-left'' = ''ArrowLeftIcon'' \<and>
   CHR ''-'' \<notin> set (toPascalCase ''arrow-left'')"
proof -
  have h: "list_all isStemWord [''arrow'', ''left'']"
    by (simp add: isStemWord_def isStemChar_def code_def)
  have e: "hyphenate [''arrow'', ''left''] = ''arrow-left''"
    by simp
  have c: "concat (map capitalize [''arrow'', ''left'']) @ ''Icon'' = ''ArrowLeftIcon''"
    by code_simp
  from toPascalCase_hyphenated[OF h] show ?thesis
    unfolding e c using h by simp
qed

subsection \<open>Deriving a name from a derived name\<close>

lemma upperStart_after_hyphen:
  "upperStart (removeHyphens (replaceWordStarts False (CHR ''-'' # s)))"
proof (induction s)
  case Nil
  then show ?case by (simp add: removeHyphens_def upperStart_def replaceWordStarts.simps)
next
  case (Cons d ds)
  show ?case
  proof (cases "isWordChar d")
    case True
    then have "toUpperChar d \<noteq> CHR ''-''"
      by (simp add: isWordChar_not_hyphen toUpperChar_not_hyphen)
    then show ?thesis
      by (simp add: rws_hyphen_word[OF True] removeHyphens_def upperStart_def toUpperChar_idem)
  next
    case False
    show ?thesis
    proof (cases "d = CHR ''-''")
      case True
      have "replaceWordStarts False (CHR ''-'' # d # ds) =
              CHR ''-'' # replaceWordStarts False (d # ds)"
        by (rule rws_hyphen_other[OF False])
      with Cons True show ?thesis
        by (simp add: removeHyphens_def)
    next
      case nh: False
      then show ?thesis
        by (simp add: rws_hyphen_other[OF False] rws_copy removeHyphens_def upperStart_def
            toUpperChar_fix[OF False])
    qed
  qed
qed

lemma upperStart_rws: "upperStart (removeHyphens (replaceWordStarts True s))"
proof (cases s)
  case Nil
  then show ?thesis by (simp add: removeHyphens_def upperStart_def replaceWordStarts.simps)
next
  case (Cons c cs)
  show ?thesis
  proof (cases "isWordChar c")
    case True
    then have "toUpperChar c \<noteq> CHR ''-''"
      by (simp add: isWordChar_not_hyphen toUpperChar_not_hyphen)
    then show ?thesis
      by (simp add: Cons rws_start_word[OF True] removeHyphens_def upperStart_def toUpperChar_idem)
  next
    case False
    show ?thesis
    proof (cases "c = CHR ''-''")
      case True
      have "replaceWordStarts True (c # cs) = replaceWordStarts False (c # cs)"
        by (rule rws_start_other[OF False])
      with True upperStart_after_hyphen[of cs] show ?thesis
        by (simp add: Cons)
    next
      case nh: False
      then show ?thesis
        by (simp add: Cons rws_start_other[OF False] rws_copy removeHyphens_def upperStart_def
            toUpperChar_fix[OF False])
    qed
  qed
qed

lemma upperStart_toPascalCase: "upperStart (toPascalCase s)"
proof (cases "removeHyphens (replaceWordStarts True s)")
  case Nil
  then show ?thesis
    by (simp add: toPascalCase_def upperStart_def toUpperChar_def code_def)
next
  case (Cons c cs)
  with upperStart_rws[of s] show ?thesis
    by (simp add: toPascalCase_def upperStart_def)
qed

lemma rws_fixed: 
  assumes "CHR ''-'' \<notin> set t" "upperStart t"
  shows "replaceWordStarts True t = t"
proof (cases t)
  case Nil
  then show ?thesis by (simp add: replaceWordStarts.simps)
next
  case (Cons c cs)
  with assms have cs: "CHR ''-'' \<notin> set cs" and c: "c \<noteq> CHR ''-''" and u: "toUpperChar c = c"
    by (auto simp: upperStart_def)
  have r: "replaceWordStarts False cs = cs"
    using rws_no_hyphen[OF cs, of "[]"] by (simp add: replaceWordStarts.simps)
  show ?thesis
  proof (cases "isWordChar c")
    case True
    then show ?thesis by (simp add: Cons rws_start_word u r)
  next
    case False
    then show ?thesis by (simp add: Cons rws_start_other rws_copy[OF c] r)
  qed
qed

text \<open>
  C8, as amended: \<open>toPascalCase\<close> appends the suffix on every call. Applied to one
  of its own results it returns that result with \<open>Icon\<close> appended once more, so
  name derivation is not idempotent on its output format.
\<close>

theorem toPascalCase_appends_again:
  "toPascalCase (toPascalCase s) = toPascalCase s @ ''Icon''"
proof -
  have "replaceWordStarts True (toPascalCase s) = toPascalCase s"
    by (rule rws_fixed[OF toPascalCase_no_hyphen upperStart_toPascalCase])
  then show ?thesis
    by (simp add: toPascalCase_def[of "toPascalCase s"] removeHyphens_id toPascalCase_no_hyphen)
qed

theorem toPascalCase_appends_again_witness:
  "toPascalCase (toPascalCase ''arrow-left'') = ''ArrowLeftIconIcon''"
proof -
  have "toPascalCase ''arrow-left'' @ ''Icon'' = ''ArrowLeftIconIcon''"
    by code_simp
  with toPascalCase_appends_again[of "''arrow-left''"] show ?thesis
    by (rule trans)
qed

text \<open>
  The claim as first stated fails: the name derived from \<open>check\<close> is
  \<open>CheckIcon\<close>, and deriving again from \<open>CheckIcon\<close> gives
  \<open>CheckIconIcon\<close>.
\<close>

theorem toPascalCase_idempotent_counterexample:
  "toPascalCase ''check'' = ''CheckIcon'' \<and>
   toPascalCase ''CheckIcon'' = ''CheckIconIcon'' \<and>
   toPascalCase ''CheckIcon'' \<noteq> ''CheckIcon''"
  by code_simp

subsection \<open>The file name of a URL\<close>

lemma lastIndexOfFrom_append:
  "lastIndexOfFrom c (xs @ ys) i found =
     lastIndexOfFrom c ys (i + int (length xs)) (lastIndexOfFrom c xs i found)"
  by (induction xs arbitrary: i found) (simp_all add: add.assoc)

lemma lastIndexOfFrom_absent: "c \<notin> set xs \<Longrightarrow> lastIndexOfFrom c xs i found = found"
  by (induction xs arbitrary: i found) auto

lemma lastIndexOf_last_slash:
  "c \<notin> set seg \<Longrightarrow> lastIndexOf (pre @ c # seg) c = int (length pre)"
  unfolding lastIndexOf_def lastIndexOfFrom_append
  by (simp add: lastIndexOfFrom_absent)

lemma lastIndexOf_absent: "c \<notin> set s \<Longrightarrow> lastIndexOf s c = - 1"
  by (simp add: lastIndexOf_def lastIndexOfFrom_absent)

lemma substring_tail: "substring (pre @ seg) (int (length pre)) (int (length (pre @ seg))) = seg"
  by (simp add: substring_def Let_def min_def max_def)

lemma substring_after_slash:
  "substring (pre @ c # seg) (int (length pre) + 1) (int (length (pre @ c # seg))) = seg"
  using substring_tail[of "pre @ [c]" seg] by (simp add: add.commute)

lemma substring_whole: "substring s 0 (int (length s)) = s"
  using substring_tail[of "[]" s] by simp

lemma startsWith_self: "startsWith (pat @ b) pat"
  by (simp add: startsWith_def)

lemma startsWith_within:
  assumes "startsWith (a @ pat @ b) pat" "a \<noteq> []" "pat \<noteq> []"
  shows "sublist pat (a @ butlast pat)"
proof -
  have "length pat \<le> length (a @ butlast pat)"
    using assms(2,3) by (cases a) simp_all
  moreover have "a @ pat @ b = (a @ butlast pat) @ (last pat # b)"
    using assms(3) by simp
  ultimately have "take (length pat) (a @ pat @ b) = take (length pat) (a @ butlast pat)"
    by (simp only: take_append) simp
  with assms(1) have "prefix pat (a @ butlast pat)"
    unfolding startsWith_def by (metis take_is_prefix)
  then show ?thesis by (rule prefix_imp_sublist)
qed

lemma replaceFirst_first:
  assumes "pat \<noteq> []" "\<not> sublist pat (a @ butlast pat)"
  shows "replaceFirst pat rep (a @ pat @ b) = a @ rep @ b"
  using assms(2)
proof (induction a)
  case Nil
  from assms(1) obtain p ps where "pat = p # ps" by (cases pat) auto
  then show ?case
    using startsWith_self[of pat b] by simp
next
  case (Cons x a)
  have 1: "\<not> startsWith ((x # a) @ pat @ b) pat"
    using startsWith_within[of "x # a" pat b] Cons.prems assms(1) by blast
  have 2: "\<not> sublist pat (a @ butlast pat)"
    using Cons.prems by (metis append_Cons sublist_Cons_right)
  show ?case
    using 1 Cons.IH[OF 2] by simp
qed

lemma replaceFirst_absent:
  "pat \<noteq> [] \<Longrightarrow> \<not> sublist pat s \<Longrightarrow> replaceFirst pat rep s = s"
proof (induction s)
  case Nil
  then show ?case by simp
next
  case (Cons c s)
  then have "\<not> startsWith (c # s) pat" and "\<not> sublist pat s"
    by (auto simp: startsWith_prefix sublist_Cons_right)
  with Cons show ?case by simp
qed

lemma getFileNameFromUrl_segment:
  assumes "CHR ''/'' \<notin> set seg"
  shows "getFileNameFromUrl (pre @ ''/'' @ seg) = replaceFirst ''.svg'' [] seg"
  using substring_after_slash[of pre "CHR ''/''" seg]
  by (simp add: getFileNameFromUrl_def lastIndexOf_last_slash[OF assms])

lemma getFileNameFromUrl_no_slash:
  assumes "CHR ''/'' \<notin> set seg"
  shows "getFileNameFromUrl seg = replaceFirst ''.svg'' [] seg"
  using substring_whole[of seg]
  by (simp add: getFileNameFromUrl_def lastIndexOf_absent[OF assms])

text \<open>
  C9: \<open>getFileNameFromUrl\<close> takes the text after the last slash of the URL and
  removes from it the first occurrence of \<open>.svg\<close>, wherever that occurrence
  stands: when the segment reads \<open>a\<close>, \<open>.svg\<close>, \<open>b\<close> and
  \<open>.svg\<close> does not occur earlier, the result is \<open>a\<close> followed by
  \<open>b\<close>. The witness has \<open>icon.svg.svg\<close>, which gives
  \<open>icon.svg\<close>, and \<open>a.svg.b\<close>, which gives \<open>a.b\<close>.
\<close>

theorem getFileNameFromUrl_first_occurrence:
  assumes "CHR ''/'' \<notin> set (a @ ''.svg'' @ b)"
      and "\<not> sublist ''.svg'' (a @ ''.sv'')"
  shows "getFileNameFromUrl (pre @ ''/'' @ a @ ''.svg'' @ b) = a @ b"
proof -
  have "replaceFirst ''.svg'' [] (a @ ''.svg'' @ b) = a @ [] @ b"
    by (rule replaceFirst_first) (use assms(2) in simp_all)
  then show ?thesis
    using getFileNameFromUrl_segment[OF assms(1), of pre] by simp
qed

theorem getFileNameFromUrl_first_occurrence_witness:
  "CHR ''/'' \<notin> set (''icon'' @ ''.svg'' @ ''.svg'') \<and>
   \<not> sublist ''.svg'' (''icon'' @ ''.sv'') \<and>
   getFileNameFromUrl ''https://host/dir/icon.svg.svg'' = ''icon.svg'' \<and>
   CHR ''/'' \<notin> set (''a'' @ ''.svg'' @ ''.b'') \<and>
   \<not> sublist ''.svg'' (''a'' @ ''.sv'') \<and>
   getFileNameFromUrl ''https://host/dir/a.svg.b'' = ''a.b''"
proof -
  have 1: "CHR ''/'' \<notin> set (''icon'' @ ''.svg'' @ ''.svg'')" by simp
  have 2: "\<not> sublist ''.svg'' (''icon'' @ ''.sv'')" by code_simp
  have 3: "CHR ''/'' \<notin> set (''a'' @ ''.svg'' @ ''.b'')" by simp
  have 4: "\<not> sublist ''.svg'' (''a'' @ ''.sv'')" by code_simp
  from getFileNameFromUrl_first_occurrence[OF 1 2, of "''https://host/dir''"]
       getFileNameFromUrl_first_occurrence[OF 3 4, of "''https://host/dir''"]
       1 2 3 4
  show ?thesis by simp
qed

subsection \<open>The path pattern\<close>

lemma matchQuoted_Some:
  "matchQuoted s = Some r \<Longrightarrow> CHR 0x22 \<notin> set r \<and> (\<exists>rest. s = r @ CHR 0x22 # rest)"
  by (induction s arbitrary: r) (auto split: if_splits)

lemma matchQuoted_value:
  "CHR 0x22 \<notin> set v \<Longrightarrow> matchQuoted (v @ CHR 0x22 # rest) = Some v"
  by (induction v) auto

lemma matchD_Some: "matchD s = Some r \<Longrightarrow> CHR 0x22 \<notin> set r"
  by (auto simp: matchD_def dest: matchQuoted_Some split: if_splits)

lemma matchAttrs_Some: "matchAttrs s = Some r \<Longrightarrow> CHR 0x22 \<notin> set r"
  by (induction s) (auto dest: matchD_Some split: if_splits option.splits)

lemma matchHere_Some: "matchHere s = Some r \<Longrightarrow> CHR 0x22 \<notin> set r"
  by (auto simp: matchHere_def dest: matchAttrs_Some split: if_splits list.splits)

lemma pathMatch_no_quote: "pathMatch s = Some r \<Longrightarrow> CHR 0x22 \<notin> set r"
  by (induction s) (auto dest: matchHere_Some split: option.splits)

lemma matchHere_starts: "matchHere s = Some r \<Longrightarrow> startsWith s ''<path''"
  by (auto simp: matchHere_def split: if_splits)

lemma pathMatch_needs_path: "pathMatch s = Some r \<Longrightarrow> sublist ''<path'' s"
proof (induction s)
  case Nil
  then show ?case by (simp add: matchHere_def startsWith_def)
next
  case (Cons c s)
  show ?case
  proof (cases "matchHere (c # s)")
    case None
    with Cons show ?thesis by (simp add: sublist_Cons_right)
  next
    case (Some a)
    then have "prefix ''<path'' (c # s)"
      using matchHere_starts startsWith_prefix by blast
    then show ?thesis by (rule prefix_imp_sublist)
  qed
qed

lemma matchD_value:
  \<open>CHR 0x22 \<notin> set v \<Longrightarrow> matchD (''d="'' @ v @ CHR 0x22 # rest) = Some v\<close>
  by (simp add: matchD_def startsWith_def matchQuoted_value)

lemma matchD_none:
  \<open>\<not> prefix ''d="'' s \<Longrightarrow> matchD s = None\<close>
  by (simp add: matchD_def startsWith_prefix)

lemma prefix_before_gt:
  assumes \<open>prefix ''d="'' (w @ CHR ''>'' # rest)\<close>
  shows \<open>prefix ''d="'' w\<close>
proof -
  consider "w = []" | a where "w = [a]" | a b where "w = [a, b]" | a b c w' where "w = a # b # c # w'"
    by (metis list.exhaust)
  then show ?thesis
    using assms by cases auto
qed

lemma matchAttrs_none:
  \<open>\<not> sublist ''d="'' w \<Longrightarrow> matchAttrs (w @ CHR ''>'' # rest) = None\<close>
proof (induction w)
  case Nil
  then show ?case by (simp add: matchD_def startsWith_def)
next
  case (Cons x w)
  then have 1: \<open>\<not> sublist ''d="'' w\<close> and 2: \<open>\<not> prefix ''d="'' (x # w)\<close>
    by (auto simp: sublist_Cons_right)
  from 2 have \<open>\<not> prefix ''d="'' ((x # w) @ CHR ''>'' # rest)\<close>
    using prefix_before_gt by blast
  then have "matchD (x # w @ CHR ''>'' # rest) = None"
    by (simp add: matchD_none)
  with Cons.IH[OF 1] show ?case
    by (cases "x = CHR ''>''") simp_all
qed

lemma matchAttrs_skip:
  "CHR ''>'' \<notin> set attrs \<Longrightarrow> matchAttrs s = Some v \<Longrightarrow> matchAttrs (attrs @ s) = Some v"
  by (induction attrs) auto

lemma matchAttrs_last_d:
  assumes \<open>CHR 0x22 \<notin> set v\<close> \<open>\<not> sublist ''d="'' (v @ CHR 0x22 # tail)\<close>
  shows \<open>matchAttrs (''d="'' @ v @ CHR 0x22 # tail @ CHR ''>'' # rest) = Some v\<close>
proof -
  have \<open>\<not> sublist ''d="'' (''="'' @ v @ CHR 0x22 # tail)\<close>
    using assms(2) by (simp add: sublist_Cons_right)
  then have \<open>matchAttrs ((''="'' @ v @ CHR 0x22 # tail) @ CHR ''>'' # rest) = None\<close>
    by (rule matchAttrs_none)
  moreover have \<open>matchD (''d="'' @ v @ CHR 0x22 # tail @ CHR ''>'' # rest) = Some v\<close>
    by (rule matchD_value[OF assms(1)])
  ultimately show ?thesis by simp
qed

lemma matchHere_tag:
  "isSpace ws \<Longrightarrow> matchHere (''<path'' @ ws # s) = matchAttrs s"
  by (simp add: matchHere_def startsWith_def)

lemma prefix_short: "prefix p (a @ b) \<Longrightarrow> length p \<le> length a \<Longrightarrow> prefix p a"
  by (rule prefix_length_prefix[where xs = "a @ b"]) simp_all

lemma pathMatch_skip:
  assumes "\<not> sublist ''<path'' (pre @ ''<pat'')"
  shows "pathMatch (pre @ ''<path'' @ s) = pathMatch (''<path'' @ s)"
  using assms
proof (induction pre)
  case Nil
  then show ?case by simp
next
  case (Cons x pre)
  then have 1: "\<not> sublist ''<path'' (pre @ ''<pat'')"
    and 2: "\<not> prefix ''<path'' (x # pre @ ''<pat'')"
    by (auto simp: sublist_Cons_right)
  have "\<not> prefix ''<path'' ((x # pre @ ''<pat'') @ (CHR ''h'' # s))"
    using 2 prefix_short[of "''<path''" "x # pre @ ''<pat''" "CHR ''h'' # s"] by auto
  then have "\<not> startsWith (x # pre @ ''<path'' @ s) ''<path''"
    by (simp add: startsWith_prefix)
  then have "matchHere (x # pre @ ''<path'' @ s) = None"
    by (simp add: matchHere_def)
  with Cons.IH[OF 1] show ?case by simp
qed

lemma pathMatch_first_tag:
  assumes "\<not> sublist ''<path'' (pre @ ''<pat'')" "isSpace ws" "CHR ''>'' \<notin> set attrs"
    and \<open>CHR 0x22 \<notin> set v\<close> \<open>\<not> sublist ''d="'' (v @ CHR 0x22 # tail)\<close>
  shows \<open>pathMatch (pre @ ''<path'' @ ws # attrs @ ''d="'' @ v @ CHR 0x22 # tail @ CHR ''>'' # rest) = Some v\<close>
proof -
  have \<open>matchAttrs (attrs @ ''d="'' @ v @ CHR 0x22 # tail @ CHR ''>'' # rest) = Some v\<close>
    by (rule matchAttrs_skip[OF assms(3) matchAttrs_last_d[OF assms(4,5)]])
  then have \<open>matchHere (''<path'' @ ws # attrs @ ''d="'' @ v @ CHR 0x22 # tail @ CHR ''>'' # rest) = Some v\<close>
    by (simp only: matchHere_tag[OF assms(2)])
  then have \<open>pathMatch (''<path'' @ ws # attrs @ ''d="'' @ v @ CHR 0x22 # tail @ CHR ''>'' # rest) = Some v\<close>
    by simp
  then show ?thesis
    by (simp only: pathMatch_skip[OF assms(1)])
qed

section \<open>Properties of the emitted text\<close>

lemma trim_leading_newline:
  assumes "isSpace n" "\<not> isSpace c" "rest \<noteq> []" "\<not> isSpace (last rest)"
  shows "trim (n # c # rest) = c # rest"
proof -
  from assms(3,4) obtain xs x where rest: "rest = xs @ [x]" and x: "\<not> isSpace x"
    by (metis append_butlast_last_id)
  show ?thesis
    using assms(1,2) x by (simp add: trim_def rest)
qed

lemma reactComponent_split:
  \<open>reactComponent iconName ariaLabel pathData =
     componentHead iconName ariaLabel @ (''d="'' @ pathData @ ''"'') @ componentFoot\<close>
  by (simp add: reactComponent_def componentHead_def componentFoot_def)

lemma componentHead_start:
  "\<exists>h. componentHead iconName ariaLabel = CHR ''\<newline>'' # CHR ''i'' # h"
  by (simp add: componentHead_def)

lemma componentFoot_end: "componentFoot \<noteq> [] \<and> last componentFoot = CHR ''}''"
  by (simp add: componentFoot_def)

lemma trim_reactComponent:
  "trim (reactComponent iconName ariaLabel pathData) = tl (reactComponent iconName ariaLabel pathData)"
proof -
  obtain h where h: "componentHead iconName ariaLabel = CHR ''\<newline>'' # CHR ''i'' # h"
    using componentHead_start by blast
  define rest where \<open>rest = h @ (''d="'' @ pathData @ ''"'') @ componentFoot\<close>
  have r: "reactComponent iconName ariaLabel pathData = CHR ''\<newline>'' # CHR ''i'' # rest"
    by (simp add: reactComponent_split h rest_def)
  have "rest \<noteq> []" "last rest = CHR ''}''"
    using componentFoot_end by (simp_all add: rest_def)
  moreover have "\<not> isSpace (CHR ''}'')" "\<not> isSpace (CHR ''i'')" "isSpace (CHR ''\<newline>'')"
    by (simp_all add: isSpace_def code_def)
  ultimately have "trim (CHR ''\<newline>'' # CHR ''i'' # rest) = CHR ''i'' # rest"
    using trim_leading_newline by simp
  then show ?thesis by (simp add: r)
qed

lemma reactComponent_has_d:
  \<open>sublist (''d="'' @ pathData @ ''"'') (trim (reactComponent iconName ariaLabel pathData))\<close>
proof -
  obtain h where h: "componentHead iconName ariaLabel = CHR ''\<newline>'' # CHR ''i'' # h"
    using componentHead_start by blast
  have \<open>tl (reactComponent iconName ariaLabel pathData) =
          (CHR ''i'' # h) @ (''d="'' @ pathData @ ''"'') @ componentFoot\<close>
    by (simp add: reactComponent_split h)
  then show ?thesis
    unfolding trim_reactComponent sublist_def by blast
qed

text \<open>
  C10: the path data the pattern extracts holds no double quote, for every markup. So
  the attribute the template builds from it is closed by the template's own quote:
  reading \<^verbatim>\<open>d="..."\<close> back with the pattern of the source returns the path data,
  whatever follows, and the emitted text holds that attribute.
\<close>

theorem extracted_path_has_no_quote:
  assumes "pathMatch svgData = Some pathData"
  shows \<open>CHR 0x22 \<notin> set pathData \<and>
         matchD (''d="'' @ pathData @ ''"'' @ after) = Some pathData \<and>
         sublist (''d="'' @ pathData @ ''"'') (trim (reactComponent iconName ariaLabel pathData))\<close>
proof -
  have q: "CHR 0x22 \<notin> set pathData"
    by (rule pathMatch_no_quote[OF assms])
  have \<open>matchD (''d="'' @ pathData @ CHR 0x22 # after) = Some pathData\<close>
    by (rule matchD_value[OF q])
  with q reactComponent_has_d show ?thesis by simp
qed

theorem extracted_path_has_no_quote_witness:
  \<open>pathMatch ''<svg><path d="M1 1L2 2" stroke="red"/></svg>'' = Some ''M1 1L2 2'' \<and>
   CHR 0x22 \<notin> set ''M1 1L2 2'' \<and>
   matchD (''d="'' @ ''M1 1L2 2'' @ ''"'' @ ''/>'') = Some ''M1 1L2 2'' \<and>
   sublist (''d="'' @ ''M1 1L2 2'' @ ''"'') (trim (reactComponent ''CheckIcon'' ''check'' ''M1 1L2 2''))\<close>
proof -
  have h: \<open>pathMatch ''<svg><path d="M1 1L2 2" stroke="red"/></svg>'' = Some ''M1 1L2 2''\<close>
    by code_simp
  from extracted_path_has_no_quote[OF h, of "''/>''" "''CheckIcon''" "''check''"] h
  show ?thesis by simp
qed

section \<open>Properties of the lister\<close>

lemma forEachPush_filter:
  "forEachPush listed acc =
     acc @ map download_url (filter (\<lambda>f. suffix ''.svg'' (name f)) listed)"
  by (induction listed arbitrary: acc) (simp_all add: endsWith_suffix)

text \<open>
  C3: when the listing request succeeds, the lister returns the download URLs of the
  entries whose name ends in \<open>.svg\<close>, in the order of the listing. The test is
  case-sensitive: in the witness the listing holds \<open>a.svg\<close>, \<open>b.png\<close> and
  \<open>c.SVG\<close>, and only the URL of \<open>a.svg\<close> is returned.
\<close>

theorem lister_returns_svg_urls:
  assumes "get_listing e (githubApiUrl repo path) = Inr listed"
  shows "fst (fetchGithubSvgUrls e repo path s) =
           map download_url (filter (\<lambda>f. suffix ''.svg'' (name f)) listed)"
  by (simp add: fetchGithubSvgUrls_def fetchTry_def assms forEachPush_filter)

theorem lister_returns_svg_urls_witness:
  "get_listing (testEnv (Inr listing3) []) (githubApiUrl ''tailwindlabs/heroicons'' ''src/24/outline'') =
     Inr listing3 \<and>
   fst (fetchGithubSvgUrls (testEnv (Inr listing3) []) ''tailwindlabs/heroicons'' ''src/24/outline''
          emptyState) =
     [''https://host/a.svg'']"
proof -
  have h: "get_listing (testEnv (Inr listing3) [])
             (githubApiUrl ''tailwindlabs/heroicons'' ''src/24/outline'') = Inr listing3"
    by (simp add: testEnv_def)
  have "map download_url (filter (\<lambda>f. suffix ''.svg'' (name f)) listing3) = [''https://host/a.svg'']"
    by code_simp
  with lister_returns_svg_urls[OF h, of emptyState] h show ?thesis
    by simp
qed

text \<open>
  C7: when the listing request fails, by a transport error or by a status outside 2xx,
  the lister catches the error, logs it and returns the empty list. The programs then
  run their loop over no URL: nothing is written, and the run ends normally with the
  two console lines of the failure and of the empty batch.
\<close>

theorem lister_failure_is_empty:
  assumes "get_listing e (githubApiUrl repo path) = Inl err"
  shows "fetchGithubSvgUrls e repo path s = ([], consoleLog (ErrorListing err) s) \<and>
         (repo = ''tailwindlabs/heroicons'' \<and> path = ''src/24/outline'' \<longrightarrow>
            processGithubSvgs e s =
              s\<lparr>console := console s @ [ErrorListing err, LogProcessing 0]\<rparr>) \<and>
         (repo = ''tailwindlabs/heroicons'' \<and> path = ''src/24/solid'' \<longrightarrow>
            processGithubSvgsSolid e s =
              s\<lparr>console := console s @ [ErrorListing err, LogProcessing 0]\<rparr>)"
  using assms
  by (auto simp: fetchGithubSvgUrls_def fetchTry_def processGithubSvgs_def convertSvgToReact_def
      processGithubSvgsSolid_def convertSvgToReactSolid_def consoleLog_def)

theorem lister_failure_is_empty_witness:
  "get_listing (testEnv (Inl (HttpStatus 403)) [])
     (githubApiUrl ''tailwindlabs/heroicons'' ''src/24/outline'') = Inl (HttpStatus 403) \<and>
   fetchGithubSvgUrls (testEnv (Inl (HttpStatus 403)) []) ''tailwindlabs/heroicons'' ''src/24/outline''
     emptyState = ([], consoleLog (ErrorListing (HttpStatus 403)) emptyState) \<and>
   processGithubSvgs (testEnv (Inl (HttpStatus 403)) []) emptyState =
     \<lparr>dirs = [], files = [], console = [ErrorListing (HttpStatus 403), LogProcessing 0]\<rparr>"
proof -
  have h: "get_listing (testEnv (Inl (HttpStatus 403)) [])
             (githubApiUrl ''tailwindlabs/heroicons'' ''src/24/outline'') = Inl (HttpStatus 403)"
    by (simp add: testEnv_def)
  from lister_failure_is_empty[OF h, of emptyState] h show ?thesis
    by (simp add: emptyState_def)
qed

section \<open>Properties of the loop\<close>

subsection \<open>State changes of one iteration\<close>

lemma files_consoleLog: "files (consoleLog l s) = files s"
  by (simp add: consoleLog_def)

lemma console_consoleLog: "console (consoleLog l s) = console s @ [l]"
  by (simp add: consoleLog_def)

lemma ensureDirectoryExistence_files:
  "ensureDirectoryExistence e p s = Inr (b, s') \<Longrightarrow> files s' = files s \<and> console s' = console s"
  by (auto simp: ensureDirectoryExistence_def Let_def split: if_splits)

lemma ensureDirectoryExistence_throws:
  "ensureDirectoryExistence e p s = Inl (err, s') \<Longrightarrow> s' = s"
  by (auto simp: ensureDirectoryExistence_def Let_def split: if_splits)

lemma ensureDirectoryExistence_ok:
  "\<not> mkdir_fails e (dirname p) \<Longrightarrow> \<exists>b s'. ensureDirectoryExistence e p s = Inr (b, s')"
  by (auto simp: ensureDirectoryExistence_def Let_def)

lemma loopBody_fetch_fails:
  "get_text e url = Inl err \<Longrightarrow>
     loopBody e url s = consoleLog (ErrorProcessing url err) (consoleLog (LogFetching url) s)"
  by (simp add: loopBody_def tryBody_def)

lemma loopBodySolid_fetch_fails:
  "get_text e url = Inl err \<Longrightarrow>
     loopBodySolid e url s = consoleLog (ErrorProcessing url err) (consoleLog (LogFetching url) s)"
  by (simp add: loopBodySolid_def tryBodySolid_def)

lemma tryBody_no_path:
  "get_text e url = Inr svgData \<Longrightarrow> pathMatch svgData = None \<Longrightarrow>
     tryBody e url s =
       Inr (consoleLog (ErrorNoPath (getFileNameFromUrl url)) (consoleLog (LogFetching url) s))"
  by (simp add: tryBody_def)

lemma tryBody_throws_files:
  "tryBody e url s = Inl (err, s') \<Longrightarrow> files s' = files s"
  by (auto simp: tryBody_def Let_def writeFileSync_def files_consoleLog
      dest!: ensureDirectoryExistence_files ensureDirectoryExistence_throws
      split: sum.splits option.splits prod.splits if_splits)

lemma tryBodySolid_throws_files:
  "tryBodySolid e url s = Inl (err, s') \<Longrightarrow> files s' = files s"
  by (auto simp: tryBodySolid_def Let_def writeFileSync_def files_consoleLog
      dest!: ensureDirectoryExistence_files ensureDirectoryExistence_throws
      split: sum.splits option.splits prod.splits if_splits)

lemma tryBody_written:
  assumes "get_text e url = Inr svgData" "pathMatch svgData = Some pathData"
    and "\<not> mkdir_fails e (dirname (outputPathOf e url))"
    and "\<not> write_fails e (outputPathOf e url)"
  shows "\<exists>s'. tryBody e url s = Inr s' \<and>
           files s' = AList.update (outputPathOf e url)
             (trim (reactComponent (iconNameOf url) (getFileNameFromUrl url) pathData)) (files s) \<and>
           console s' = console s @ [LogFetching url, LogSaved (iconNameOf url)]"
proof -
  obtain b s2 where
    e: "ensureDirectoryExistence e (outputPathOf e url) (consoleLog (LogFetching url) s) = Inr (b, s2)"
    using ensureDirectoryExistence_ok[OF assms(3)] by blast
  from ensureDirectoryExistence_files[OF e]
  have "files s2 = files s" "console s2 = console s @ [LogFetching url]"
    by (simp_all add: files_consoleLog console_consoleLog)
  then show ?thesis
    using e assms(4)
    by (simp add: tryBody_def Let_def assms(1,2) writeFileSync_def files_consoleLog
        console_consoleLog outputPathOf_def iconNameOf_def)
qed

lemma loopBody_written:
  assumes "get_text e url = Inr svgData" "pathMatch svgData = Some pathData"
    and "\<not> mkdir_fails e (dirname (outputPathOf e url))"
    and "\<not> write_fails e (outputPathOf e url)"
  shows "files (loopBody e url s) =
           AList.update (outputPathOf e url)
             (trim (reactComponent (iconNameOf url) (getFileNameFromUrl url) pathData)) (files s) \<and>
         console (loopBody e url s) = console s @ [LogFetching url, LogSaved (iconNameOf url)]"
  using tryBody_written[OF assms, of s] by (auto simp: loopBody_def)

lemma tryBody_returns_files:
  assumes "tryBody e url s = Inr s'"
  shows "files s' = files s \<or> (\<exists>p t. files s' = AList.update p t (files s))"
proof (cases "get_text e url")
  case (Inl err)
  with assms show ?thesis by (simp add: tryBody_def)
next
  case (Inr svgData)
  show ?thesis
  proof (cases "pathMatch svgData")
    case None
    with assms Inr show ?thesis
      by (auto simp: tryBody_def files_consoleLog)
  next
    case (Some pathData)
    with assms Inr have "\<exists>p t. files s' = AList.update p t (files s)"
      by (fastforce simp: tryBody_def Let_def writeFileSync_def files_consoleLog
          dest!: ensureDirectoryExistence_files
          split: sum.splits prod.splits if_splits)
    then show ?thesis ..
  qed
qed

lemma tryBodySolid_returns_files:
  assumes "tryBodySolid e url s = Inr s'"
  shows "\<exists>p t. files s' = AList.update p t (files s)"
  using assms
  by (fastforce simp: tryBodySolid_def Let_def writeFileSync_def files_consoleLog
      dest!: ensureDirectoryExistence_files
      split: sum.splits prod.splits if_splits)

lemma tryBodySolid_written:
  assumes "itemSucceedsSolid e url"
  shows "\<exists>s' t. tryBodySolid e url s = Inr s' \<and>
           files s' = AList.update (outputPathSolidOf e url) t (files s)"
proof -
  from assms obtain svgData optimizedSvg svgElements formattedCode where
    g: "get_text e url = Inr svgData" "svgo_optimize e svgData = Inr optimizedSvg"
       "cheerio_svg_html e optimizedSvg = Inr svgElements"
       "prettier_format e (reactComponentSolid (iconNameOf url) (getFileNameFromUrl url) svgElements)
          = Inr formattedCode"
    and m: "\<not> mkdir_fails e (dirname (outputPathSolidOf e url))"
    and w: "\<not> write_fails e (outputPathSolidOf e url)"
    by (auto simp: itemSucceedsSolid_def split: sum.splits)
  obtain b s2 where
    e: "ensureDirectoryExistence e (outputPathSolidOf e url) (consoleLog (LogFetching url) s) = Inr (b, s2)"
    using ensureDirectoryExistence_ok[OF m] by blast
  from ensureDirectoryExistence_files[OF e]
  have "files s2 = files s"
    by (simp add: files_consoleLog)
  then show ?thesis
    using e w g
    by (simp add: tryBodySolid_def Let_def writeFileSync_def files_consoleLog
        outputPathSolidOf_def iconNameOf_def) blast
qed

subsection \<open>Files are never removed\<close>

lemma update_keeps_keys: "fst ` set al \<subseteq> fst ` set (AList.update k v al)"
  unfolding dom_update by blast

lemma keepsFiles_loopBody: "keepsFiles (loopBody e)"
  unfolding keepsFiles_def
proof (intro allI)
  fix url s
  show "fst ` set (files s) \<subseteq> fst ` set (files (loopBody e url s))"
  proof (cases "tryBody e url s")
    case (Inl a)
    then show ?thesis
      by (cases a) (simp add: loopBody_def files_consoleLog tryBody_throws_files)
  next
    case (Inr s')
    have "files s' = files s \<or> (\<exists>p t. files s' = AList.update p t (files s))"
      by (rule tryBody_returns_files[OF Inr])
    then have "fst ` set (files s) \<subseteq> fst ` set (files s')"
      using update_keeps_keys[of "files s"] by (elim disjE exE) simp_all
    with Inr show ?thesis
      by (simp add: loopBody_def)
  qed
qed

lemma keepsFiles_loopBodySolid: "keepsFiles (loopBodySolid e)"
  unfolding keepsFiles_def
proof (intro allI)
  fix url s
  show "fst ` set (files s) \<subseteq> fst ` set (files (loopBodySolid e url s))"
  proof (cases "tryBodySolid e url s")
    case (Inl a)
    then show ?thesis
      by (cases a) (simp add: loopBodySolid_def files_consoleLog tryBodySolid_throws_files)
  next
    case (Inr s')
    have "\<exists>p t. files s' = AList.update p t (files s)"
      by (rule tryBodySolid_returns_files[OF Inr])
    then have "fst ` set (files s) \<subseteq> fst ` set (files s')"
      using update_keeps_keys[of "files s"] by (elim exE) simp_all
    with Inr show ?thesis
      by (simp add: loopBodySolid_def)
  qed
qed

lemma forOf_keeps_files:
  "keepsFiles body \<Longrightarrow> p \<in> fst ` set (files s) \<Longrightarrow> p \<in> fst ` set (files (forOf body urls s))"
proof (induction urls arbitrary: s)
  case Nil
  then show ?case by simp
next
  case (Cons u urls)
  from Cons.prems have "p \<in> fst ` set (files (body u s))"
    unfolding keepsFiles_def by blast
  with Cons show ?case by simp
qed

lemma forOf_append: "forOf body (xs @ ys) s = forOf body ys (forOf body xs s)"
  by (induction xs arbitrary: s) simp_all

lemma forOf_writes:
  assumes "keepsFiles body" "u \<in> set urls" "\<And>s. p \<in> fst ` set (files (body u s))"
  shows "p \<in> fst ` set (files (forOf body urls s))"
proof -
  from assms(2) obtain xs ys where urls: "urls = xs @ u # ys"
    by (auto simp: in_set_conv_decomp)
  show ?thesis
    by (simp add: urls forOf_append forOf_keeps_files[OF assms(1)] assms(3))
qed

lemma loopBody_success_file:
  assumes "itemSucceeds e u"
  shows "outputPathOf e u \<in> fst ` set (files (loopBody e u s))"
proof -
  from assms obtain svgData pathData where
    "get_text e u = Inr svgData" "pathMatch svgData = Some pathData"
    "\<not> mkdir_fails e (dirname (outputPathOf e u))" "\<not> write_fails e (outputPathOf e u)"
    by (auto simp: itemSucceeds_def split: sum.splits)
  from loopBody_written[OF this, of s] show ?thesis
    by (simp add: dom_update)
qed

lemma loopBodySolid_success_file:
  assumes "itemSucceedsSolid e u"
  shows "outputPathSolidOf e u \<in> fst ` set (files (loopBodySolid e u s))"
  using tryBodySolid_written[OF assms, of s]
  by (auto simp: loopBodySolid_def dom_update)

subsection \<open>The outline program on one icon\<close>

lemma dirname_file:
  assumes "CHR ''/'' \<notin> set f" "d \<noteq> []"
  shows "dirname (d @ ''/'' @ f) = d"
proof -
  have "lastIndexOf (d @ CHR ''/'' # f) (CHR ''/'') = int (length d)"
    by (rule lastIndexOf_last_slash[OF assms(1)])
  then show ?thesis
    using assms(2) by (simp add: dirname_def)
qed

lemma outputPath_text: "outputPath e iconName = cwd e @ ''/src/assets/icons/'' @ iconName @ ''.tsx''"
  by (simp add: outputPath_def)

lemma getFileNameFromUrl_check: "getFileNameFromUrl (base @ ''/check.svg'') = ''check''"
proof -
  have "replaceFirst ''.svg'' [] ''check.svg'' = ''check''"
    by code_simp
  with getFileNameFromUrl_segment[of "''check.svg''" base] show ?thesis
    by simp
qed

lemma iconNameOf_check: "iconNameOf (base @ ''/check.svg'') = ''CheckIcon''"
proof -
  have "toPascalCase ''check'' = ''CheckIcon''"
    by code_simp
  then show ?thesis
    by (simp add: iconNameOf_def getFileNameFromUrl_check)
qed

lemma outputPathOf_check:
  "outputPathOf e (base @ ''/check.svg'') = cwd e @ ''/src/assets/icons/CheckIcon.tsx''"
  by (simp add: outputPathOf_def iconNameOf_check outputPath_text)

lemma dirname_check:
  "dirname (cwd e @ ''/src/assets/icons/CheckIcon.tsx'') = cwd e @ ''/src/assets/icons''"
  using dirname_file[of "''CheckIcon.tsx''" "cwd e @ ''/src/assets/icons''"] by simp

text \<open>
  C1: the listing holds the one file \<open>check.svg\<close>, whose download URL ends in
  \<open>/check.svg\<close>, and the request for it answers
  \<^verbatim>\<open><svg><path d="M1 1L2 2"/></svg>\<close>. Then the outline program writes one file,
  \<open>CheckIcon.tsx\<close> in \<open>src/assets/icons\<close> under the working directory, and
  changes no other file. Its text is the template filled with the name
  \<open>CheckIcon\<close>, the label \<open>check\<close> and the path data; it holds
  \<^verbatim>\<open>d="M1 1L2 2"\<close> and \<^verbatim>\<open>aria-label="check"\<close>.
\<close>

theorem outline_end_to_end:
  assumes "get_listing e (githubApiUrl ''tailwindlabs/heroicons'' ''src/24/outline'') =
             Inr [\<lparr>name = ''check.svg'', download_url = base @ ''/check.svg''\<rparr>]"
    and \<open>get_text e (base @ ''/check.svg'') = Inr ''<svg><path d="M1 1L2 2"/></svg>''\<close>
    and "\<not> mkdir_fails e (cwd e @ ''/src/assets/icons'')"
    and "\<not> write_fails e (cwd e @ ''/src/assets/icons/CheckIcon.tsx'')"
  shows \<open>files (processGithubSvgs e s) =
           AList.update (cwd e @ ''/src/assets/icons/CheckIcon.tsx'')
             (trim (reactComponent ''CheckIcon'' ''check'' ''M1 1L2 2'')) (files s) \<and>
         sublist ''d="M1 1L2 2"'' (trim (reactComponent ''CheckIcon'' ''check'' ''M1 1L2 2'')) \<and>
         sublist ''aria-label="check"'' (trim (reactComponent ''CheckIcon'' ''check'' ''M1 1L2 2''))\<close>
proof -
  let ?u = "base @ ''/check.svg''"
  have pm: \<open>pathMatch ''<svg><path d="M1 1L2 2"/></svg>'' = Some ''M1 1L2 2''\<close>
    by code_simp
  have m: "\<not> mkdir_fails e (dirname (outputPathOf e ?u))"
    unfolding outputPathOf_check dirname_check by (rule assms(3))
  have w: "\<not> write_fails e (outputPathOf e ?u)"
    unfolding outputPathOf_check by (rule assms(4))
  have l: "fetchGithubSvgUrls e ''tailwindlabs/heroicons'' ''src/24/outline'' s =
             ([?u], consoleLog (LogTotalFound 1) s)"
    by (simp add: fetchGithubSvgUrls_def fetchTry_def assms(1) endsWith_def)
  have "files (processGithubSvgs e s) =
          files (loopBody e ?u (consoleLog (LogProcessing 1) (consoleLog (LogTotalFound 1) s)))"
    by (simp add: processGithubSvgs_def l convertSvgToReact_def)
  also have "\<dots> = AList.update (cwd e @ ''/src/assets/icons/CheckIcon.tsx'')
             (trim (reactComponent ''CheckIcon'' ''check'' ''M1 1L2 2'')) (files s)"
    using loopBody_written[OF assms(2) pm m w]
    by (simp add: outputPathOf_check iconNameOf_check getFileNameFromUrl_check files_consoleLog)
  finally have f: "files (processGithubSvgs e s) =
           AList.update (cwd e @ ''/src/assets/icons/CheckIcon.tsx'')
             (trim (reactComponent ''CheckIcon'' ''check'' ''M1 1L2 2'')) (files s)" .
  have d: \<open>sublist ''d="M1 1L2 2"'' (trim (reactComponent ''CheckIcon'' ''check'' ''M1 1L2 2''))\<close>
    using reactComponent_has_d[of "''M1 1L2 2''" "''CheckIcon''" "''check''"] by simp
  have a: \<open>sublist ''aria-label="check"'' (trim (reactComponent ''CheckIcon'' ''check'' ''M1 1L2 2''))\<close>
    by code_simp
  from f d a show ?thesis by simp
qed

theorem outline_end_to_end_witness:
  \<open>get_listing checkEnv (githubApiUrl ''tailwindlabs/heroicons'' ''src/24/outline'') =
     Inr [\<lparr>name = ''check.svg'', download_url = ''https://host/outline'' @ ''/check.svg''\<rparr>] \<and>
   get_text checkEnv (''https://host/outline'' @ ''/check.svg'') = Inr ''<svg><path d="M1 1L2 2"/></svg>'' \<and>
   \<not> mkdir_fails checkEnv (cwd checkEnv @ ''/src/assets/icons'') \<and>
   \<not> write_fails checkEnv (cwd checkEnv @ ''/src/assets/icons/CheckIcon.tsx'') \<and>
   files (processGithubSvgs checkEnv emptyState) =
     [(''/work/src/assets/icons/CheckIcon.tsx'', trim (reactComponent ''CheckIcon'' ''check'' ''M1 1L2 2''))] \<and>
   sublist ''d="M1 1L2 2"'' (trim (reactComponent ''CheckIcon'' ''check'' ''M1 1L2 2'')) \<and>
   sublist ''aria-label="check"'' (trim (reactComponent ''CheckIcon'' ''check'' ''M1 1L2 2''))\<close>
proof -
  have 1: "get_listing checkEnv (githubApiUrl ''tailwindlabs/heroicons'' ''src/24/outline'') =
     Inr [\<lparr>name = ''check.svg'', download_url = ''https://host/outline'' @ ''/check.svg''\<rparr>]"
    by (simp add: checkEnv_def testEnv_def)
  have 2: \<open>get_text checkEnv (''https://host/outline'' @ ''/check.svg'') =
             Inr ''<svg><path d="M1 1L2 2"/></svg>''\<close>
    by (simp add: checkEnv_def testEnv_def checkBody_def)
  have 3: "\<not> mkdir_fails checkEnv (cwd checkEnv @ ''/src/assets/icons'')"
    by (simp add: checkEnv_def testEnv_def)
  have 4: "\<not> write_fails checkEnv (cwd checkEnv @ ''/src/assets/icons/CheckIcon.tsx'')"
    by (simp add: checkEnv_def testEnv_def)
  have 5: "cwd checkEnv = ''/work''" "files emptyState = []"
    by (simp_all add: checkEnv_def testEnv_def emptyState_def)
  from outline_end_to_end[OF 1 2 3 4, of emptyState] 1 2 3 4 show ?thesis
    by (simp add: 5)
qed

subsection \<open>Markup without a match\<close>

lemma no_path_element_no_match: "\<not> sublist ''<path'' svgData \<Longrightarrow> pathMatch svgData = None"
  using pathMatch_needs_path by (cases "pathMatch svgData") auto

text \<open>
  C5: in the outline program, when the pattern finds no match in the fetched markup,
  the \<^verbatim>\<open>try\<close> block ends by its \<^verbatim>\<open>continue\<close> and throws nothing: the iteration
  adds the line of the fetch and the diagnostic to the console, writes no file, and the
  loop goes on with the URLs that follow. Markup in which \<^verbatim>\<open><path\<close> does not occur,
  so markup with no path element, has no match.
\<close>

theorem missing_path_is_skipped:
  assumes "get_text e url = Inr svgData"
    and "pathMatch svgData = None \<or> \<not> sublist ''<path'' svgData"
  shows "pathMatch svgData = None \<and>
         tryBody e url s =
           Inr (consoleLog (ErrorNoPath (getFileNameFromUrl url)) (consoleLog (LogFetching url) s)) \<and>
         files (loopBody e url s) = files s \<and>
         console (loopBody e url s) =
           console s @ [LogFetching url, ErrorNoPath (getFileNameFromUrl url)] \<and>
         forOf (loopBody e) (before @ url # after) s =
           forOf (loopBody e) after (loopBody e url (forOf (loopBody e) before s))"
proof -
  have n: "pathMatch svgData = None"
    using assms(2) no_path_element_no_match by blast
  show ?thesis
    by (simp add: n tryBody_no_path[OF assms(1) n] loopBody_def files_consoleLog
        console_consoleLog forOf_append)
qed

theorem missing_path_is_skipped_witness:
  \<open>get_text (testEnv (Inr []) [(''https://host/dot.svg'', ''<svg><circle r="1"/></svg>'')])
      ''https://host/dot.svg'' = Inr ''<svg><circle r="1"/></svg>'' \<and>
   \<not> sublist ''<path'' ''<svg><circle r="1"/></svg>'' \<and>
   pathMatch ''<svg><circle r="1"/></svg>'' = None \<and>
   files (loopBody (testEnv (Inr []) [(''https://host/dot.svg'', ''<svg><circle r="1"/></svg>'')])
      ''https://host/dot.svg'' emptyState) = [] \<and>
   console (loopBody (testEnv (Inr []) [(''https://host/dot.svg'', ''<svg><circle r="1"/></svg>'')])
      ''https://host/dot.svg'' emptyState) = [LogFetching ''https://host/dot.svg'', ErrorNoPath ''dot'']\<close>
proof -
  have 1: \<open>get_text (testEnv (Inr []) [(''https://host/dot.svg'', ''<svg><circle r="1"/></svg>'')])
      ''https://host/dot.svg'' = Inr ''<svg><circle r="1"/></svg>''\<close>
    by (simp add: testEnv_def)
  have 2: \<open>\<not> sublist ''<path'' ''<svg><circle r="1"/></svg>''\<close>
    by code_simp
  have 3: "getFileNameFromUrl ''https://host/dot.svg'' = ''dot''"
    by code_simp
  from missing_path_is_skipped[OF 1 disjI2[OF 2], of emptyState "[]" "[]"] 1 2 show ?thesis
    by (simp add: 3 emptyState_def)
qed

subsection \<open>Markup with several paths\<close>

text \<open>
  The outline program fills the template with the capture of the first match and looks
  at nothing after it. When the first \<^verbatim>\<open><path\<close> tag of the markup has a
  \<^verbatim>\<open>d="..."\<close> attribute and \<^verbatim>\<open>d="\<close> does not occur in the tag after it, the
  capture is the value of that attribute, and the file written holds the template
  filled with it, whatever follows the tag.
\<close>

lemma first_tag_decides_output:
  assumes "\<not> sublist ''<path'' (pre @ ''<pat'')"
    and "isSpace ws"
    and "CHR ''>'' \<notin> set attrs"
    and \<open>CHR 0x22 \<notin> set v\<close>
    and \<open>\<not> sublist ''d="'' (v @ ''"'' @ tail)\<close>
    and \<open>get_text e url =
           Inr (pre @ ''<path'' @ [ws] @ attrs @ ''d="'' @ v @ ''"'' @ tail @ ''>'' @ rest)\<close>
    and "\<not> mkdir_fails e (dirname (outputPathOf e url))"
    and "\<not> write_fails e (outputPathOf e url)"
  shows \<open>pathMatch (pre @ ''<path'' @ [ws] @ attrs @ ''d="'' @ v @ ''"'' @ tail @ ''>'' @ rest) = Some v \<and>
         files (loopBody e url s) =
           AList.update (outputPathOf e url)
             (trim (reactComponent (iconNameOf url) (getFileNameFromUrl url) v)) (files s)\<close>
proof -
  have pm: \<open>pathMatch (pre @ ''<path'' @ [ws] @ attrs @ ''d="'' @ v @ ''"'' @ tail @ ''>'' @ rest) = Some v\<close>
    using pathMatch_first_tag[OF assms(1-4), of tail rest] assms(5) by simp
  from loopBody_written[OF assms(6) pm assms(7,8), of s] pm show ?thesis
    by simp
qed

lemma first_tag_decides_output_example:
  \<open>files (loopBody twoPathsEnv ''https://host/two.svg'' emptyState) =
     [(''/work/src/assets/icons/TwoIcon.tsx'', trim (reactComponent ''TwoIcon'' ''two'' ''M1 1''))] \<and>
   sublist ''d="M1 1"'' (trim (reactComponent ''TwoIcon'' ''two'' ''M1 1'')) \<and>
   \<not> sublist ''M9 9'' (trim (reactComponent ''TwoIcon'' ''two'' ''M1 1''))\<close>
proof -
  have 1: "\<not> sublist ''<path'' (''<svg>'' @ ''<pat'')" by code_simp
  have 2: "isSpace (CHR '' '')" by (simp add: isSpace_def code_def)
  have 3: \<open>CHR ''>'' \<notin> set ''stroke="red" ''\<close> by simp
  have 4: \<open>CHR 0x22 \<notin> set ''M1 1''\<close> by simp
  have 5: \<open>\<not> sublist ''d="'' (''M1 1'' @ ''"'' @ ''/'')\<close> by code_simp
  have 6: \<open>get_text twoPathsEnv ''https://host/two.svg'' =
     Inr (''<svg>'' @ ''<path'' @ [CHR '' ''] @ ''stroke="red" '' @ ''d="'' @ ''M1 1'' @ ''"'' @ ''/'' @
          ''>'' @ ''<path d="M9 9"/></svg>'')\<close>
    by (simp add: twoPathsEnv_def testEnv_def)
  have 7: "\<not> mkdir_fails twoPathsEnv (dirname (outputPathOf twoPathsEnv ''https://host/two.svg''))"
    by (simp add: twoPathsEnv_def testEnv_def)
  have 8: "\<not> write_fails twoPathsEnv (outputPathOf twoPathsEnv ''https://host/two.svg'')"
    by (simp add: twoPathsEnv_def testEnv_def)
  have 9: "outputPathOf twoPathsEnv ''https://host/two.svg'' = ''/work/src/assets/icons/TwoIcon.tsx''"
    "iconNameOf ''https://host/two.svg'' = ''TwoIcon''"
    "getFileNameFromUrl ''https://host/two.svg'' = ''two''"
    by code_simp+
  have 10: \<open>sublist ''d="M1 1"'' (trim (reactComponent ''TwoIcon'' ''two'' ''M1 1''))\<close>
    \<open>\<not> sublist ''M9 9'' (trim (reactComponent ''TwoIcon'' ''two'' ''M1 1''))\<close>
    by code_simp+
  from first_tag_decides_output[OF 1 2 3 4 5 6 7 8, of emptyState] 10 show ?thesis
    by (simp add: 9 emptyState_def)
qed

text \<open>
  C4: the claim asks that the emitted text hold the \<^verbatim>\<open>d\<close> value of the first
  matching path element. The outline program misses this at the markup
  \<^verbatim>\<open><svg><path d="M1 1" id="p"/><path d="M9 9"/></svg>\<close>. The greedy
  \<^verbatim>\<open>[^>]*\<close> runs to the end of the first tag and gives characters back until
  \<^verbatim>\<open>d="\<close> follows, which it first does inside \<^verbatim>\<open>id="p"\<close>: the capture is
  \<open>p\<close>, not the path data. The file written holds \<^verbatim>\<open>d="p"\<close> and holds neither
  \<open>M1 1\<close> nor \<open>M9 9\<close>. The capture is the same when the first path stands alone.
\<close>

theorem path_capture_takes_id:
  \<open>pathMatch ''<svg><path d="M1 1" id="p"/><path d="M9 9"/></svg>'' = Some ''p'' \<and>
   pathMatch ''<svg><path d="M1 1" id="p"/></svg>'' = Some ''p'' \<and>
   get_text twoPathsEnv ''https://host/id.svg'' =
     Inr ''<svg><path d="M1 1" id="p"/><path d="M9 9"/></svg>'' \<and>
   files (loopBody twoPathsEnv ''https://host/id.svg'' emptyState) =
     [(''/work/src/assets/icons/IdIcon.tsx'', trim (reactComponent ''IdIcon'' ''id'' ''p''))] \<and>
   sublist ''d="p"'' (trim (reactComponent ''IdIcon'' ''id'' ''p'')) \<and>
   \<not> sublist ''M1 1'' (trim (reactComponent ''IdIcon'' ''id'' ''p'')) \<and>
   \<not> sublist ''M9 9'' (trim (reactComponent ''IdIcon'' ''id'' ''p''))\<close>
  by code_simp

subsection \<open>One failure does not stop the batch\<close>

lemma loopBody_catches:
  "tryBody e u s = Inl (err, s') \<Longrightarrow>
     loopBody e u s = consoleLog (ErrorProcessing u err) s' \<and> files (loopBody e u s) = files s"
  by (simp add: loopBody_def files_consoleLog tryBody_throws_files)

lemma loopBodySolid_catches:
  "tryBodySolid e u s = Inl (err, s') \<Longrightarrow>
     loopBodySolid e u s = consoleLog (ErrorProcessing u err) s' \<and>
     files (loopBodySolid e u s) = files s"
  by (simp add: loopBodySolid_def files_consoleLog tryBodySolid_throws_files)

lemma convertSvgToReact_success_file:
  assumes "u \<in> set urls" "itemSucceeds e u"
  shows "outputPathOf e u \<in> fst ` set (files (convertSvgToReact e urls s))"
  unfolding convertSvgToReact_def
  by (rule forOf_writes[OF keepsFiles_loopBody assms(1)]) (rule loopBody_success_file[OF assms(2)])

lemma convertSvgToReactSolid_success_file:
  assumes "u \<in> set urls" "itemSucceedsSolid e u"
  shows "outputPathSolidOf e u \<in> fst ` set (files (convertSvgToReactSolid e urls s))"
  unfolding convertSvgToReactSolid_def
  by (rule forOf_writes[OF keepsFiles_loopBodySolid assms(1)])
    (rule loopBodySolid_success_file[OF assms(2)])

text \<open>
  C6: in both programs a failure of one URL stays inside its iteration. A request that
  fails is caught and logged, and so is anything else the \<^verbatim>\<open>try\<close> block throws; the
  iteration then leaves the files as they were. The loop runs the iterations one after
  the other whatever each of them did, so the URLs after a failure are processed from
  the state the failure left. Hence every URL of the batch for which nothing fails has
  its output file when the batch ends, whatever happens to the other URLs. The witness
  is a batch of three URLs whose second request answers 404: the files of the first and
  of the third are written.
\<close>

theorem batch_failure_isolation:
  "(get_text e u = Inl err \<longrightarrow>
      loopBody e u s = consoleLog (ErrorProcessing u err) (consoleLog (LogFetching u) s) \<and>
      loopBodySolid e u s = consoleLog (ErrorProcessing u err) (consoleLog (LogFetching u) s)) \<and>
   (tryBody e u s = Inl (err, s') \<longrightarrow>
      loopBody e u s = consoleLog (ErrorProcessing u err) s' \<and>
      files (loopBody e u s) = files s) \<and>
   (tryBodySolid e u s = Inl (err, s') \<longrightarrow>
      loopBodySolid e u s = consoleLog (ErrorProcessing u err) s' \<and>
      files (loopBodySolid e u s) = files s) \<and>
   forOf body (before @ u # after) s = forOf body after (body u (forOf body before s)) \<and>
   (u \<in> set urls \<and> itemSucceeds e u \<longrightarrow>
      outputPathOf e u \<in> fst ` set (files (convertSvgToReact e urls s))) \<and>
   (u \<in> set urls \<and> itemSucceedsSolid e u \<longrightarrow>
      outputPathSolidOf e u \<in> fst ` set (files (convertSvgToReactSolid e urls s)))"
proof (intro conjI impI)
  assume "get_text e u = Inl err"
  then show "loopBody e u s = consoleLog (ErrorProcessing u err) (consoleLog (LogFetching u) s)"
    and "loopBodySolid e u s = consoleLog (ErrorProcessing u err) (consoleLog (LogFetching u) s)"
    by (simp_all add: loopBody_fetch_fails loopBodySolid_fetch_fails)
next
  assume t: "tryBody e u s = Inl (err, s')"
  from loopBody_catches[OF t]
  show "loopBody e u s = consoleLog (ErrorProcessing u err) s'"
    and "files (loopBody e u s) = files s"
    by blast+
next
  assume t: "tryBodySolid e u s = Inl (err, s')"
  from loopBodySolid_catches[OF t]
  show "loopBodySolid e u s = consoleLog (ErrorProcessing u err) s'"
    and "files (loopBodySolid e u s) = files s"
    by blast+
next
  show "forOf body (before @ u # after) s = forOf body after (body u (forOf body before s))"
    by (simp add: forOf_append)
next
  assume "u \<in> set urls \<and> itemSucceeds e u"
  then show "outputPathOf e u \<in> fst ` set (files (convertSvgToReact e urls s))"
    by (simp add: convertSvgToReact_success_file)
next
  assume "u \<in> set urls \<and> itemSucceedsSolid e u"
  then show "outputPathSolidOf e u \<in> fst ` set (files (convertSvgToReactSolid e urls s))"
    by (simp add: convertSvgToReactSolid_success_file)
qed

theorem batch_failure_isolation_witness:
  \<open>get_text batchEnv ''https://host/b.svg'' = Inl (HttpStatus 404) \<and>
   ''https://host/a.svg'' \<in> set batchUrls \<and> itemSucceeds batchEnv ''https://host/a.svg'' \<and>
   ''https://host/c.svg'' \<in> set batchUrls \<and> itemSucceeds batchEnv ''https://host/c.svg'' \<and>
   itemSucceedsSolid batchEnv ''https://host/c.svg'' \<and>
   outputPathOf batchEnv ''https://host/a.svg'' \<in>
     fst ` set (files (convertSvgToReact batchEnv batchUrls emptyState)) \<and>
   outputPathOf batchEnv ''https://host/c.svg'' \<in>
     fst ` set (files (convertSvgToReact batchEnv batchUrls emptyState)) \<and>
   outputPathSolidOf batchEnv ''https://host/c.svg'' \<in>
     fst ` set (files (convertSvgToReactSolid batchEnv batchUrls emptyState)) \<and>
   files (convertSvgToReact batchEnv batchUrls emptyState) =
     [(''/work/src/assets/icons/AIcon.tsx'', trim (reactComponent ''AIcon'' ''a'' ''M1 1'')),
      (''/work/src/assets/icons/CIcon.tsx'', trim (reactComponent ''CIcon'' ''c'' ''M3 3''))] \<and>
   console (convertSvgToReact batchEnv batchUrls emptyState) =
     [LogProcessing 3,
      LogFetching ''https://host/a.svg'', LogSaved ''AIcon'',
      LogFetching ''https://host/b.svg'', ErrorProcessing ''https://host/b.svg'' (HttpStatus 404),
      LogFetching ''https://host/c.svg'', LogSaved ''CIcon''] \<and>
   map fst (files (convertSvgToReactSolid batchEnv batchUrls emptyState)) =
     [''/work/src/icons/AIcon.tsx'', ''/work/src/icons/CIcon.tsx'']\<close>
proof -
  have b: "get_text batchEnv ''https://host/b.svg'' = Inl (HttpStatus 404)"
    by (simp add: batchEnv_def testEnv_def)
  have a: "''https://host/a.svg'' \<in> set batchUrls" "itemSucceeds batchEnv ''https://host/a.svg''"
    by code_simp+
  have c: "''https://host/c.svg'' \<in> set batchUrls" "itemSucceeds batchEnv ''https://host/c.svg''"
    "itemSucceedsSolid batchEnv ''https://host/c.svg''"
    by code_simp+
  have r: \<open>files (convertSvgToReact batchEnv batchUrls emptyState) =
     [(''/work/src/assets/icons/AIcon.tsx'', trim (reactComponent ''AIcon'' ''a'' ''M1 1'')),
      (''/work/src/assets/icons/CIcon.tsx'', trim (reactComponent ''CIcon'' ''c'' ''M3 3''))]\<close>
    \<open>console (convertSvgToReact batchEnv batchUrls emptyState) =
     [LogProcessing 3,
      LogFetching ''https://host/a.svg'', LogSaved ''AIcon'',
      LogFetching ''https://host/b.svg'', ErrorProcessing ''https://host/b.svg'' (HttpStatus 404),
      LogFetching ''https://host/c.svg'', LogSaved ''CIcon'']\<close>
    \<open>map fst (files (convertSvgToReactSolid batchEnv batchUrls emptyState)) =
     [''/work/src/icons/AIcon.tsx'', ''/work/src/icons/CIcon.tsx'']\<close>
    by code_simp+
  note t = batch_failure_isolation[where e = batchEnv and urls = batchUrls and s = emptyState]
  from t[where u = "''https://host/a.svg''"] a
  have 1: "outputPathOf batchEnv ''https://host/a.svg'' \<in>
     fst ` set (files (convertSvgToReact batchEnv batchUrls emptyState))"
    by blast
  from t[where u = "''https://host/c.svg''"] c
  have 2: "outputPathOf batchEnv ''https://host/c.svg'' \<in>
     fst ` set (files (convertSvgToReact batchEnv batchUrls emptyState))"
    "outputPathSolidOf batchEnv ''https://host/c.svg'' \<in>
     fst ` set (files (convertSvgToReactSolid batchEnv batchUrls emptyState))"
    by blast+
  from a b c r 1 2 show ?thesis
    by (intro conjI)
qed

end
